theory Spec2Isabelle
  imports Main
begin

section \<open>Python strings\<close>

text \<open>
  A Python \<^verbatim>\<open>str\<close> is a sequence of Unicode code points. Isabelle's \<open>char\<close> is a byte,
  and the prompts of \<^verbatim>\<open>app.py\<close> are Vietnamese, so a string is modelled as the list of its
  code points. \<open>u\<close> turns an ASCII literal into such a list.
\<close>

type_synonym pystr = "nat list"

definition u :: "string \<Rightarrow> pystr" where
  "u s = map of_char s"

text \<open>
  The code points for which \<^verbatim>\<open>str.isspace\<close> holds; \<^verbatim>\<open>str.split()\<close> and \<^verbatim>\<open>str.strip()\<close>
  use the same set.
\<close>

definition isspace :: "nat \<Rightarrow> bool" where
  "isspace c \<longleftrightarrow>
     (9 \<le> c \<and> c \<le> 13) \<or> (28 \<le> c \<and> c \<le> 32) \<or> c = 133 \<or> c = 160 \<or> c = 5760 \<or>
     (8192 \<le> c \<and> c \<le> 8202) \<or> c = 8232 \<or> c = 8233 \<or> c = 8239 \<or> c = 8287 \<or> c = 12288"

text \<open>
  \<^verbatim>\<open>text.split()\<close>: the maximal runs of non-whitespace, in order; no empty token.
  \<open>cur\<close> is the token being read.
\<close>

fun str_split_from :: "pystr \<Rightarrow> pystr \<Rightarrow> pystr list" where
  "str_split_from cur [] = (if cur = [] then [] else [cur])"
| "str_split_from cur (c # cs) =
     (if isspace c
      then (if cur = [] then str_split_from [] cs else cur # str_split_from [] cs)
      else str_split_from (cur @ [c]) cs)"

definition str_split :: "pystr \<Rightarrow> pystr list" where
  "str_split s = str_split_from [] s"

text \<open>
  \<^verbatim>\<open>s.split(sep)\<close> for a non-empty separator: cut at each occurrence of \<open>sep\<close>, left to
  right; empty pieces are kept and the result is never empty.
\<close>

fun str_split_sep_from :: "pystr \<Rightarrow> pystr \<Rightarrow> pystr \<Rightarrow> pystr list" where
  "str_split_sep_from sep cur [] = [cur]"
| "str_split_sep_from sep cur (c # cs) =
     (if sep \<noteq> [] \<and> take (length sep) (c # cs) = sep
      then cur # str_split_sep_from sep [] (drop (length sep - 1) cs)
      else str_split_sep_from sep (cur @ [c]) cs)"

definition str_split_sep :: "pystr \<Rightarrow> pystr \<Rightarrow> pystr list" where
  "str_split_sep sep s = str_split_sep_from sep [] s"

text \<open>\<^verbatim>\<open>s.strip()\<close>: whitespace removed at both ends.\<close>

definition str_strip :: "pystr \<Rightarrow> pystr" where
  "str_strip s = rev (dropWhile isspace (rev (dropWhile isspace s)))"

text \<open>\<^verbatim>\<open>sep.join(xs)\<close>.\<close>

fun str_join :: "pystr \<Rightarrow> pystr list \<Rightarrow> pystr" where
  "str_join sep [] = []"
| "str_join sep [x] = x"
| "str_join sep (x # y # ys) = x @ sep @ str_join sep (y # ys)"

section \<open>Exceptions and the language model\<close>

text \<open>
  The exceptions that the modelled code can raise. \<^verbatim>\<open>json.JSONDecodeError\<close> is caught by the
  script and is an outcome of the run, not an exception of it.
\<close>

datatype error = IndexError | KeyError | TypeError

text \<open>
  \<^verbatim>\<open>ollama.chat(model="mistral", messages=[...])["message"]["content"]\<close>. The model is
  outside the program: it is a parameter that gives the content of the reply from the
  prompts sent so far and the prompt sent now, so that the same prompt may be answered
  differently at each call. The state threaded through the program is the list of the
  prompts sent, in order; a function that leaves it unchanged has not called the model.
  Every call is taken to deliver a reply text: failures of the transport are not modelled.
\<close>

type_synonym llm = "pystr list \<Rightarrow> pystr \<Rightarrow> pystr"

definition ollama_chat :: "llm \<Rightarrow> pystr \<Rightarrow> pystr list \<Rightarrow> pystr \<times> pystr list" where
  "ollama_chat model prompt sent = (model sent prompt, sent @ [prompt])"

text \<open>A model that gives the same reply to every prompt, for the worked examples.\<close>

definition echo_model :: "pystr \<Rightarrow> llm" where
  "echo_model reply sent prompt = reply"

section \<open>The dictionary loader\<close>

text \<open>
  \<^verbatim>\<open>load_abbreviation_dict\<close>. The table read from the dictionary file is the list of its
  rows, each the pair of its \<^verbatim>\<open>Full_words\<close> and \<^verbatim>\<open>Abbreviation\<close> cells, both text. The
  dict being built is a map; \<open>add_abbreviations\<close> is the inner loop over the abbreviations
  of one row, \<open>load_rows\<close> the outer loop over the rows.
\<close>

type_synonym abbreviation_map = "pystr \<rightharpoonup> pystr list"

fun add_abbreviations :: "abbreviation_map \<Rightarrow> pystr \<Rightarrow> pystr list \<Rightarrow> abbreviation_map" where
  "add_abbreviations abbreviation_map full_word [] = abbreviation_map"
| "add_abbreviations abbreviation_map full_word (abbr # abbreviations) =
     add_abbreviations
       (case abbreviation_map abbr of
          Some ws \<Rightarrow> abbreviation_map(abbr \<mapsto> ws @ [full_word])
        | None \<Rightarrow> abbreviation_map(abbr \<mapsto> [full_word]))
       full_word abbreviations"

fun load_rows :: "abbreviation_map \<Rightarrow> (pystr \<times> pystr) list \<Rightarrow> abbreviation_map" where
  "load_rows abbreviation_map [] = abbreviation_map"
| "load_rows abbreviation_map ((full_word, abbreviation) # df) =
     load_rows
       (add_abbreviations abbreviation_map full_word (str_split_sep (u '', '') abbreviation))
       df"

definition load_abbreviation_dict :: "(pystr \<times> pystr) list \<Rightarrow> abbreviation_map" where
  "load_abbreviation_dict df = load_rows Map.empty df"

section \<open>The abbreviation resolver\<close>

text \<open>The f-string of \<^verbatim>\<open>resolve_abbreviation_with_llm\<close>, code point by code point.\<close>

definition resolver_prompt :: "pystr \<Rightarrow> pystr \<Rightarrow> pystr list \<Rightarrow> pystr" where
  "resolver_prompt abbreviation context possible_words =
     (u ''\<newline>    B'' @ [7841] @ u ''n l'' @ [224] @ u '' m'' @ [7897] @ u ''t AI c'' @ [243]
      @ u '' nhi'' @ [7879] @ u ''m v'' @ [7909] @ u '' gi'' @ [7843] @ u ''i th'' @ [237]
      @ u ''ch c'' @ [225] @ u ''c t'' @ [7915] @ u '' vi'' @ [7871] @ u ''t t'' @ [7855]
      @ u ''t trong giao d'' @ [7883] @ u ''ch t'' @ [224] @ u ''i \<newline>    ch'' @ [237]
      @ u ''nh. D'' @ [432, 7899] @ u ''i '' @ [273, 226] @ u ''y l'' @ [224] @ u '' ng'' @ [7919]
      @ u '' c'' @ [7843] @ u ''nh:\<newline>    \<newline>    Giao d'' @ [7883] @ u ''ch: '' @ [34])
     @ context
     @ ([34] @ u ''\<newline>    \<newline>    T'' @ [7915] @ u '' vi'' @ [7871] @ u ''t t'' @ [7855]
      @ u ''t '' @ [34])
     @ abbreviation
     @ ([34] @ u '' c'' @ [243] @ u '' th'' @ [7875] @ u '' mang ngh'' @ [297] @ u ''a n'' @ [224]
      @ u ''o? C'' @ [225] @ u ''c t'' @ [7915] @ u '' sau c'' @ [243] @ u '' th'' @ [7875]
      @ u '' l'' @ [224] @ u '' \<newline>    g'' @ [7907] @ u ''i '' @ [253] @ u '' t'' @ [7915]
      @ u '' t'' @ [7915] @ u '' '' @ [273] @ u ''i'' @ [7875] @ u ''n: '')
     @ str_join (u '', '') possible_words
     @ (u ''.\<newline>    \<newline>    N'' @ [7871] @ u ''u c'' @ [243] @ u '' t'' @ [7915] @ u '' n''
      @ [224] @ u ''o ph'' @ [249] @ u '' h'' @ [7907] @ u ''p h'' @ [417] @ u ''n d'' @ [7921]
      @ u ''a tr'' @ [234] @ u ''n ng'' @ [7919] @ u '' c'' @ [7843] @ u ''nh, h'' @ [227]
      @ u ''y s'' @ [7917] @ u '' d'' @ [7909] @ u ''ng n'' @ [243]
      @ u ''.\<newline>    \<newline>    H'' @ [227] @ u ''y tr'' @ [7843] @ u '' l'' @ [7901]
      @ u ''i ch'' @ [7881] @ u '' b'' @ [7857] @ u ''ng t'' @ [7915] @ u '' '' @ [273, 250]
      @ u ''ng nh'' @ [7845] @ u ''t.\<newline>    '')"

text \<open>
  \<^verbatim>\<open>resolve_abbreviation_with_llm(abbreviation, context, possible_words)\<close>, with
  \<open>possible_words\<close> a list of strings as its docstring says. \<^verbatim>\<open>possible_words[0]\<close> raises
  \<^verbatim>\<open>IndexError\<close> on the empty list.
\<close>

definition resolve_abbreviation_with_llm ::
  "llm \<Rightarrow> pystr \<Rightarrow> pystr \<Rightarrow> pystr list \<Rightarrow> pystr list \<Rightarrow> (error + pystr) \<times> pystr list" where
  "resolve_abbreviation_with_llm model abbreviation context possible_words sent =
     (let prompt = resolver_prompt abbreviation context possible_words;
          (content, sent') = ollama_chat model prompt sent;
          full_word = str_strip content
      in if full_word \<notin> set possible_words
         then (case possible_words of
                 [] \<Rightarrow> (Inl IndexError, sent')
               | w # _ \<Rightarrow> (Inr w, sent'))
         else (Inr full_word, sent'))"

section \<open>The text expander\<close>

text \<open>
  The loop of \<^verbatim>\<open>expand_abbreviations\<close> over \<open>words\<close>, with the list \<open>expanded_words\<close>
  built so far. An exception of the resolver ends the loop.
\<close>

fun expand_loop ::
  "llm \<Rightarrow> pystr \<Rightarrow> abbreviation_map \<Rightarrow> pystr list \<Rightarrow> pystr list \<Rightarrow> pystr list
   \<Rightarrow> (error + pystr list) \<times> pystr list" where
  "expand_loop model text abbreviation_map [] expanded_words sent = (Inr expanded_words, sent)"
| "expand_loop model text abbreviation_map (word # words) expanded_words sent =
     (case abbreviation_map word of
        Some possible_words \<Rightarrow>
          if length possible_words = 1
          then expand_loop model text abbreviation_map words
                 (expanded_words @ [possible_words ! 0]) sent
          else (case resolve_abbreviation_with_llm model word text possible_words sent of
                  (Inl e, sent') \<Rightarrow> (Inl e, sent')
                | (Inr full_word, sent') \<Rightarrow>
                    expand_loop model text abbreviation_map words
                      (expanded_words @ [full_word]) sent')
      | None \<Rightarrow>
          expand_loop model text abbreviation_map words (expanded_words @ [word]) sent)"

definition expand_abbreviations ::
  "llm \<Rightarrow> pystr \<Rightarrow> abbreviation_map \<Rightarrow> pystr list \<Rightarrow> (error + pystr) \<times> pystr list" where
  "expand_abbreviations model text abbreviation_map sent =
     (case expand_loop model text abbreviation_map (str_split text) [] sent of
        (Inl e, sent') \<Rightarrow> (Inl e, sent')
      | (Inr expanded_words, sent') \<Rightarrow> (Inr (str_join (u '' '') expanded_words), sent'))"

section \<open>Tables\<close>

text \<open>
  A cell of a table is a text or is missing (\<^verbatim>\<open>NaN\<close>, which is also what \<^verbatim>\<open>pandas\<close> puts
  where a row has no value for a column); numeric cells are not modelled. \<open>py_str\<close> is
  \<^verbatim>\<open>str(x)\<close>, and \<^verbatim>\<open>astype(str)\<close> on one cell.
\<close>

datatype cell = Text pystr | NaN

fun py_str :: "cell \<Rightarrow> pystr" where
  "py_str (Text s) = s"
| "py_str NaN = u ''nan''"

text \<open>
  A \<^verbatim>\<open>DataFrame\<close>: the column labels in order and the rows, each the list of its cells in
  the order of the columns. The row index is not modelled: the script resets it
  (\<^verbatim>\<open>ignore_index=True\<close>) and does not write it (\<^verbatim>\<open>index=False\<close>).
\<close>

record dataframe =
  columns :: "pystr list"
  rows :: "cell list list"

text \<open>
  A record of the parsed model response: the items of a \<^verbatim>\<open>dict\<close>, in insertion order.
\<close>

type_synonym json_record = "(pystr \<times> cell) list"

definition record_get :: "json_record \<Rightarrow> pystr \<Rightarrow> cell" where
  "record_get r k = (case map_of r k of Some v \<Rightarrow> v | None \<Rightarrow> NaN)"

text \<open>The distinct elements of a list, in the order of their first occurrence.\<close>

definition unique :: "'a list \<Rightarrow> 'a list" where
  "unique xs = rev (remdups (rev xs))"

text \<open>
  \<open>loc cols r c\<close> is the cell of the row \<open>r\<close> under the label \<open>c\<close>, missing when \<open>c\<close> is
  not a label; \<open>cell_at df i c\<close> is \<^verbatim>\<open>df.iloc[i][c]\<close> read in the same way.
\<close>

definition loc :: "pystr list \<Rightarrow> cell list \<Rightarrow> pystr \<Rightarrow> cell" where
  "loc cols r c = (case map_of (zip cols r) c of Some v \<Rightarrow> v | None \<Rightarrow> NaN)"

definition cell_at :: "dataframe \<Rightarrow> nat \<Rightarrow> pystr \<Rightarrow> cell" where
  "cell_at df i c = loc (columns df) (rows df ! i) c"

text \<open>\<^verbatim>\<open>df[c]\<close>, which raises \<^verbatim>\<open>KeyError\<close> for an unknown label.\<close>

definition get_column :: "dataframe \<Rightarrow> pystr \<Rightarrow> error + cell list" where
  "get_column df c =
     (if c \<in> set (columns df) then Inr (map (\<lambda>r. loc (columns df) r c) (rows df))
      else Inl KeyError)"

text \<open>
  \<^verbatim>\<open>df[c] = values\<close>: an existing column is overwritten in place, a new one is appended as
  the last column.
\<close>

definition set_column :: "pystr \<Rightarrow> cell list \<Rightarrow> dataframe \<Rightarrow> dataframe" where
  "set_column c values df =
     (let cols = (if c \<in> set (columns df) then columns df else columns df @ [c])
      in \<lparr>columns = cols,
          rows = map (\<lambda>(r, v). map (\<lambda>k. if k = c then v else loc (columns df) r k) cols)
                   (zip (rows df) values)\<rparr>)"

text \<open>\<^verbatim>\<open>df.iloc[n:]\<close>.\<close>

definition iloc_from :: "nat \<Rightarrow> dataframe \<Rightarrow> dataframe" where
  "iloc_from n df = df\<lparr>rows := drop n (rows df)\<rparr>"

text \<open>\<^verbatim>\<open>df.iloc[:, 0].tolist()\<close>, which raises \<^verbatim>\<open>IndexError\<close> on a table without columns.\<close>

definition first_column :: "dataframe \<Rightarrow> error + cell list" where
  "first_column df =
     (case columns df of
        [] \<Rightarrow> Inl IndexError
      | c # _ \<Rightarrow> Inr (map (\<lambda>r. loc (columns df) r c) (rows df)))"

text \<open>
  \<^verbatim>\<open>pd.DataFrame(records)\<close> on a list of dicts: the columns are the keys in the order of
  their first appearance, and a record without a key has a missing cell there.
\<close>

definition DataFrame :: "json_record list \<Rightarrow> dataframe" where
  "DataFrame records =
     (let cols = unique (concat (map (map fst) records))
      in \<lparr>columns = cols,
          rows = map (\<lambda>r. map (record_get r) cols) records\<rparr>)"

text \<open>
  \<^verbatim>\<open>pd.concat([a, b], ignore_index=True)\<close>: the rows of \<open>a\<close>, then the rows of \<open>b\<close>, over
  the union of the columns (those of \<open>a\<close> first), with missing cells where a table has no
  such column.
\<close>

definition pd_concat :: "dataframe \<Rightarrow> dataframe \<Rightarrow> dataframe" where
  "pd_concat a b =
     (let cols = unique (columns a @ columns b)
      in \<lparr>columns = cols,
          rows = map (\<lambda>r. map (loc (columns a) r) cols) (rows a)
               @ map (\<lambda>r. map (loc (columns b) r) cols) (rows b)\<rparr>)"

section \<open>The classifier and the reconciliation\<close>

text \<open>\<^verbatim>\<open>', '.join(xs)\<close> on cells: \<^verbatim>\<open>TypeError\<close> when an item is not a string.\<close>

fun join_cells :: "pystr \<Rightarrow> cell list \<Rightarrow> error + pystr" where
  "join_cells sep xs =
     (if \<forall>x\<in>set xs. x \<noteq> NaN then Inr (str_join sep (map py_str xs)) else Inl TypeError)"

text \<open>
  \<^verbatim>\<open>transactions_df["REMARK_CLEAN"].apply(lambda x: expand_abbreviations(str(x),
  abbreviation_map))\<close>: the remarks are expanded one after the other.
\<close>

fun apply_expand ::
  "llm \<Rightarrow> abbreviation_map \<Rightarrow> cell list \<Rightarrow> pystr list \<Rightarrow> (error + cell list) \<times> pystr list" where
  "apply_expand model abbreviation_map [] sent = (Inr [], sent)"
| "apply_expand model abbreviation_map (x # xs) sent =
     (case expand_abbreviations model (py_str x) abbreviation_map sent of
        (Inl e, sent') \<Rightarrow> (Inl e, sent')
      | (Inr remark, sent') \<Rightarrow>
          (case apply_expand model abbreviation_map xs sent' of
             (Inl e, sent'') \<Rightarrow> (Inl e, sent'')
           | (Inr remarks, sent'') \<Rightarrow> (Inr (Text remark # remarks), sent'')))"

text \<open>Lines 138-140: the expanded remarks are stored in the column \<^verbatim>\<open>REMARK\<close>.\<close>

definition expand_remarks ::
  "llm \<Rightarrow> abbreviation_map \<Rightarrow> dataframe \<Rightarrow> pystr list \<Rightarrow> (error + dataframe) \<times> pystr list" where
  "expand_remarks model abbreviation_map transactions_df sent =
     (case get_column transactions_df (u ''REMARK_CLEAN'') of
        Inl e \<Rightarrow> (Inl e, sent)
      | Inr remark_clean \<Rightarrow>
          (case apply_expand model abbreviation_map remark_clean sent of
             (Inl e, sent') \<Rightarrow> (Inl e, sent')
           | (Inr remark, sent') \<Rightarrow>
               (Inr (set_column (u ''REMARK'') remark transactions_df), sent')))"

text \<open>
  The f-string of lines 156-165, code point by code point: the text before the
  categories, the text between the categories and the transactions, and the text after
  the transactions.
\<close>

definition classification_head :: pystr where
  "classification_head =
     u ''\<newline>    B'' @ [7841] @ u ''n l'' @ [224] @ u '' m'' @ [7897] @ u ''t AI c'' @ [243]
     @ u '' nhi'' @ [7879] @ u ''m v'' @ [7909] @ u '' ph'' @ [226] @ u ''n lo'' @ [7841]
     @ u ''i giao d'' @ [7883] @ u ''ch t'' @ [224] @ u ''i ch'' @ [237] @ u ''nh v'' @ [224]
     @ u ''o c'' @ [225] @ u ''c danh m'' @ [7909] @ u ''c \<newline>    ph'' @ [249] @ u '' h''
     @ [7907] @ u ''p. Danh m'' @ [7909] @ u ''c c'' @ [243] @ u '' s'' @ [7861] @ u ''n l''
     @ [224] @ u '': ''"

definition classification_middle :: pystr where
  "classification_middle =
     u ''.\<newline>    \<newline>    H'' @ [227] @ u ''y ph'' @ [226] @ u ''n lo'' @ [7841]
     @ u ''i c'' @ [225] @ u ''c giao d'' @ [7883] @ u ''ch sau v'' @ [224] @ u ''o m'' @ [7897]
     @ u ''t trong c'' @ [225] @ u ''c danh m'' @ [7909] @ u ''c tr'' @ [234]
     @ u ''n:\<newline>    ''"

definition classification_tail :: pystr where
  "classification_tail =
     u ''\<newline>    \<newline>    Tr'' @ [7843] @ u '' l'' @ [7901] @ u ''i d'' @ [432, 7899]
     @ u ''i d'' @ [7841] @ u ''ng danh s'' @ [225] @ u ''ch JSON g'' @ [7891] @ u ''m c''
     @ [225] @ u ''c t'' @ [7915] @ u '' '' @ [273] @ u ''i'' @ [7875] @ u ''n ch'' @ [7913]
     @ u ''a '' @ [39] @ u ''transaction'' @ [39] @ u '' v'' @ [224] @ u '' \<newline>    '' @ [39]
     @ u ''category'' @ [39] @ u ''.\<newline>    ''"

definition classification_prompt :: "pystr \<Rightarrow> pystr \<Rightarrow> pystr" where
  "classification_prompt categories transactions_text =
     classification_head @ categories @ classification_middle @ transactions_text
     @ classification_tail"

text \<open>
  \<^verbatim>\<open>astype(str)\<close> on one cell of the column. The library version is not pinned: before
  version 3 of \<^verbatim>\<open>pandas\<close> a missing cell becomes the text \<^verbatim>\<open>nan\<close>; from version 3 on it
  stays missing (\<open>keeps_missing\<close>), and the join of line 155 then raises \<^verbatim>\<open>TypeError\<close>.
\<close>

definition astype_str :: "bool \<Rightarrow> cell \<Rightarrow> cell" where
  "astype_str keeps_missing x =
     (if x = NaN \<and> \<not> keeps_missing then Text (u ''nan'') else x)"

text \<open>Lines 155-165: \<open>transactions_text\<close> and the prompt.\<close>

definition build_prompt :: "bool \<Rightarrow> cell list \<Rightarrow> dataframe \<Rightarrow> error + pystr" where
  "build_prompt keeps_missing category_list transactions_df =
     (case get_column transactions_df (u ''REMARK_CLEAN'') of
        Inl e \<Rightarrow> Inl e
      | Inr remark_clean \<Rightarrow>
          (case join_cells (u ''\<newline>'') (map (astype_str keeps_missing) remark_clean) of
             Inl e \<Rightarrow> Inl e
           | Inr transactions_text \<Rightarrow>
               (case join_cells (u '', '') category_list of
                  Inl e \<Rightarrow> Inl e
                | Inr categories \<Rightarrow>
                    Inr (classification_prompt categories transactions_text))))"

text \<open>
  The label of line 188: the code points of K, h, U+00E1 (a with acute accent) and c.
\<close>

definition fallback_category :: pystr where
  "fallback_category = [75, 104, 225, 99]"

text \<open>
  Lines 177-196, from the table of transactions and the parsed response
  \<open>categorized_transactions\<close>, a list of records.
\<close>

definition reconcile :: "dataframe \<Rightarrow> json_record list \<Rightarrow> dataframe" where
  "reconcile transactions_df categorized_transactions =
     (let missing_count =
            int (length (rows transactions_df)) - int (length categorized_transactions)
      in if missing_count > 0
         then (let tail = iloc_from (length categorized_transactions) transactions_df;
                   uncategorized_rows =
                     set_column (u ''category'')
                       (replicate (length (rows tail)) (Text fallback_category)) tail
               in pd_concat (DataFrame categorized_transactions) uncategorized_rows)
         else DataFrame categorized_transactions)"

section \<open>The run of the script\<close>

text \<open>
  The body of \<^verbatim>\<open>if categories_file and transactions_file:\<close>, from the three tables read
  from the files. \<^verbatim>\<open>json.loads\<close> is a parameter: it gives the list of records of the
  response, or nothing when the response is not JSON, and then the script reports the
  error and produces no table. A response that is JSON but not a list of objects with
  text or null values is not modelled. \<open>keeps_missing\<close> tells the version of the table
  library, as for \<open>astype_str\<close>. What the run leaves: the table of transactions with
  its column \<^verbatim>\<open>REMARK\<close>, the prompt sent to the classifier and the outcome.
\<close>

datatype outcome = Categorized dataframe | JSONDecodeError

record run =
  run_transactions :: dataframe
  run_prompt :: pystr
  run_outcome :: outcome

definition main ::
  "bool \<Rightarrow> llm \<Rightarrow> (pystr \<Rightarrow> json_record list option) \<Rightarrow> dataframe \<Rightarrow> dataframe
   \<Rightarrow> (pystr \<times> pystr) list \<Rightarrow> pystr list \<Rightarrow> (error + run) \<times> pystr list" where
  "main keeps_missing model json_loads categories_df transactions_df abbreviation_dict sent =
     (let abbreviation_map = load_abbreviation_dict abbreviation_dict
      in case first_column categories_df of
           Inl e \<Rightarrow> (Inl e, sent)
         | Inr category_list \<Rightarrow>
             (case expand_remarks model abbreviation_map transactions_df sent of
                (Inl e, sent') \<Rightarrow> (Inl e, sent')
              | (Inr transactions_df', sent') \<Rightarrow>
                  (case build_prompt keeps_missing category_list transactions_df' of
                     Inl e \<Rightarrow> (Inl e, sent')
                   | Inr prompt \<Rightarrow>
                       (let (response_content, sent'') = ollama_chat model prompt sent'
                        in (Inr \<lparr>run_transactions = transactions_df', run_prompt = prompt,
                                 run_outcome =
                                   (case json_loads response_content of
                                      None \<Rightarrow> JSONDecodeError
                                    | Some categorized_transactions \<Rightarrow>
                                        Categorized
                                          (reconcile transactions_df' categorized_transactions))\<rparr>,
                            sent'')))))"

section \<open>Notions used in the statements\<close>

text \<open>The candidates recorded under a key, none when the key is absent.\<close>

definition entries :: "abbreviation_map \<Rightarrow> pystr \<Rightarrow> pystr list" where
  "entries m k = (case m k of None \<Rightarrow> [] | Some ws \<Rightarrow> ws)"

text \<open>
  The full words of the rows that list \<open>k\<close> among their abbreviations, in row order, each
  as many times as the row lists \<open>k\<close>.
\<close>

definition dict_candidates :: "(pystr \<times> pystr) list \<Rightarrow> pystr \<Rightarrow> pystr list" where
  "dict_candidates df k =
     concat (map (\<lambda>(full_word, abbreviation).
                    replicate (count_list (str_split_sep (u '', '') abbreviation) k) full_word) df)"

text \<open>A token has at least one character and no whitespace.\<close>

definition is_token :: "pystr \<Rightarrow> bool" where
  "is_token t \<longleftrightarrow> t \<noteq> [] \<and> \<not> list_ex isspace t"

text \<open>
  A word is normalised when it is its own tokens joined by single spaces, and is not
  empty.
\<close>

definition normalised :: "pystr \<Rightarrow> bool" where
  "normalised w \<longleftrightarrow> w \<noteq> [] \<and> str_join (u '' '') (str_split w) = w"

text \<open>
  The rule of the expander for one token, in the words of its specification:
  \<open>sent\<close> and \<open>sent'\<close> are the prompts sent before and after the token, \<open>out\<close> the word
  written for it. A token absent from the map is kept, and one with exactly one candidate
  is replaced by it, both without a call of the model; otherwise the resolver is called
  with the token, the whole text and the candidates, and its result is written.
\<close>

definition expand_token_rule ::
  "llm \<Rightarrow> pystr \<Rightarrow> abbreviation_map \<Rightarrow> pystr \<Rightarrow> pystr list \<Rightarrow> pystr \<Rightarrow> pystr list \<Rightarrow> bool" where
  "expand_token_rule model text m token sent out sent' \<longleftrightarrow>
     (case m token of
        None \<Rightarrow> out = token \<and> sent' = sent
      | Some candidates \<Rightarrow>
          if length candidates = 1 then out = candidates ! 0 \<and> sent' = sent
          else resolve_abbreviation_with_llm model token text candidates sent = (Inr out, sent'))"

section \<open>The reconciliation example\<close>

text \<open>Five transactions, of which the model has classified the first three.\<close>

definition example_transactions :: dataframe where
  "example_transactions =
     \<lparr>columns = [u ''REMARK_CLEAN'', u ''REMARK''],
      rows = [[Text (u ''t1''), Text (u ''t1'')], [Text (u ''t2''), Text (u ''t2'')],
              [Text (u ''t3''), Text (u ''t3'')], [Text (u ''t4''), Text (u ''t4'')],
              [Text (u ''t5''), Text (u ''t5'')]]\<rparr>"

definition example_classified :: "json_record list" where
  "example_classified =
     [[(u ''transaction'', Text (u ''t1'')), (u ''category'', Text (u ''A''))],
      [(u ''transaction'', Text (u ''t2'')), (u ''category'', Text (u ''B''))],
      [(u ''transaction'', Text (u ''t3'')), (u ''category'', Text (u ''A''))]]"

section \<open>Splitting and joining\<close>

lemma split_from_tokens:
  "\<forall>c\<in>set cur. \<not> isspace c \<Longrightarrow> t \<in> set (str_split_from cur s) \<Longrightarrow> is_token t"
proof (induction s arbitrary: cur)
  case Nil
  then show ?case
    by (simp add: is_token_def list_ex_iff split: if_splits)
next
  case (Cons c cs)
  show ?case
  proof (cases "isspace c")
    case True
    have empty: "\<forall>c\<in>set ([]::pystr). \<not> isspace c"
      by simp
    from Cons.prems True have "t = cur \<and> cur \<noteq> [] \<or> t \<in> set (str_split_from [] cs)"
      by (simp split: if_splits)
    then show ?thesis
      using Cons.IH [OF empty] Cons.prems(1) by (auto simp: is_token_def list_ex_iff)
  next
    case False
    with Cons.prems have "\<forall>c\<in>set (cur @ [c]). \<not> isspace c" "t \<in> set (str_split_from (cur @ [c]) cs)"
      by simp_all
    then show ?thesis
      by (rule Cons.IH)
  qed
qed

lemma str_split_tokens: "t \<in> set (str_split s) \<Longrightarrow> is_token t"
  using split_from_tokens [of "[]" t s] by (simp add: str_split_def)

lemma split_from_token:
  "\<not> list_ex isspace t \<Longrightarrow> cur @ t \<noteq> [] \<Longrightarrow> str_split_from cur t = [cur @ t]"
  by (induction t arbitrary: cur) auto

lemma str_split_token: "is_token t \<Longrightarrow> str_split t = [t]"
  using split_from_token [of t "[]"] by (simp add: str_split_def is_token_def)

lemma split_from_space:
  "isspace c \<Longrightarrow> str_split_from cur (a @ c # b) = str_split_from cur a @ str_split_from [] b"
  by (induction a arbitrary: cur) auto

lemma isspace_32: "isspace 32"
  by (simp add: isspace_def)

lemma u_space: "u '' '' = [32]"
  by (simp add: u_def)

lemma str_split_join:
  "str_split (str_join (u '' '') ws) = concat (map str_split ws)"
proof (induction "u '' ''" ws rule: str_join.induct)
  case 1
  show ?case by (simp add: str_split_def)
next
  case (2 x)
  show ?case by simp
next
  case (3 x y ys)
  have "str_split (x @ 32 # str_join (u '' '') (y # ys))
        = str_split x @ str_split (str_join (u '' '') (y # ys))"
    unfolding str_split_def by (rule split_from_space [OF isspace_32])
  with 3 show ?case
    by (simp add: u_space)
qed

lemma str_join_append:
  "a \<noteq> [] \<Longrightarrow> b \<noteq> [] \<Longrightarrow> str_join sep (a @ b) = str_join sep a @ sep @ str_join sep b"
proof (induction sep a rule: str_join.induct)
  case (1 sep)
  then show ?case by simp
next
  case (2 sep x)
  then show ?case by (cases b) simp_all
next
  case (3 sep x y ys)
  then show ?case by simp
qed

lemma str_join_concat:
  "\<forall>ts\<in>set tss. ts \<noteq> [] \<Longrightarrow> str_join sep (concat tss) = str_join sep (map (str_join sep) tss)"
proof (induction tss)
  case Nil
  show ?case by simp
next
  case (Cons ts tss)
  show ?case
  proof (cases tss)
    case Nil
    then show ?thesis by simp
  next
    case tss: (Cons ts' tss')
    from Cons.prems tss have ne: "ts \<noteq> []" "concat tss \<noteq> []"
      by auto
    have "str_join sep (concat (ts # tss)) = str_join sep ts @ sep @ str_join sep (concat tss)"
      using ne by (simp add: str_join_append)
    also have "str_join sep (concat tss) = str_join sep (map (str_join sep) tss)"
      using Cons.IH Cons.prems by simp
    also have "str_join sep ts @ sep @ str_join sep (map (str_join sep) tss)
               = str_join sep (map (str_join sep) (ts # tss))"
      by (simp add: tss)
    finally show ?thesis .
  qed
qed

lemma normalised_token: "is_token t \<Longrightarrow> normalised t"
  by (simp add: normalised_def str_split_token) (simp add: is_token_def)

lemma normalised_split_nonempty: "normalised w \<Longrightarrow> str_split w \<noteq> []"
  by (auto simp: normalised_def)

lemma join_split_join:
  assumes "\<forall>w\<in>set ws. normalised w"
  shows "str_join (u '' '') (str_split (str_join (u '' '') ws)) = str_join (u '' '') ws"
proof -
  have "str_join (u '' '') (concat (map str_split ws))
        = str_join (u '' '') (map (str_join (u '' '')) (map str_split ws))"
    using assms by (intro str_join_concat) (auto dest: normalised_split_nonempty)
  also have "map (str_join (u '' '')) (map str_split ws) = ws"
    using assms by (simp add: normalised_def map_idI)
  finally show ?thesis
    by (simp add: str_split_join)
qed

section \<open>Properties of the dictionary loader\<close>

lemma add_abbreviations_lookup:
  "add_abbreviations m full_word abbrs k =
     (if k \<in> set abbrs then Some (entries m k @ replicate (count_list abbrs k) full_word)
      else m k)"
proof (induction abbrs arbitrary: m)
  case Nil
  show ?case by simp
next
  case (Cons a abbrs)
  show ?case
    by (cases "m a") (auto simp: Cons.IH entries_def replicate_app_Cons_same)
qed

lemma load_rows_lookup:
  "load_rows m df k =
     (if dict_candidates df k = [] then m k else Some (entries m k @ dict_candidates df k))"
proof (induction df arbitrary: m)
  case Nil
  show ?case by (simp add: dict_candidates_def)
next
  case (Cons row df)
  obtain fw ab where row: "row = (fw, ab)"
    by (cases row)
  show ?case
    unfolding row
    by (auto simp: Cons.IH add_abbreviations_lookup dict_candidates_def entries_def count_list_0_iff)
qed

lemma load_abbreviation_dict_lookup:
  "load_abbreviation_dict df k =
     (if dict_candidates df k = [] then None else Some (dict_candidates df k))"
  by (simp add: load_abbreviation_dict_def load_rows_lookup entries_def)

lemma load_abbreviation_dict_nonempty: "load_abbreviation_dict df k \<noteq> Some []"
  by (simp add: load_abbreviation_dict_lookup)

text \<open>
  C6. For every key, the loaded map holds the full words of the rows whose abbreviation
  cell, split on \<^verbatim>\<open>", "\<close>, lists the key: in row order, once for each time the row lists
  it, so duplicates are kept. A key that no row lists is absent, and no key maps to the
  empty list.
\<close>

theorem load_abbreviation_dict_candidates:
  "load_abbreviation_dict df k =
     (let candidates =
        concat (map (\<lambda>(full_word, abbreviation).
                       replicate (count_list (str_split_sep (u '', '') abbreviation) k) full_word)
                    df)
      in if candidates = [] then None else Some candidates)
   \<and> load_abbreviation_dict df k \<noteq> Some []"
  using load_abbreviation_dict_lookup [of df k]
  by (simp add: dict_candidates_def Let_def)

theorem load_abbreviation_dict_candidates_witness:
  "load_abbreviation_dict [(u ''W'', u ''a, a''), (u ''V'', u ''b, a'')] (u ''a'')
     = Some [u ''W'', u ''W'', u ''V'']
   \<and> load_abbreviation_dict [(u ''W'', u ''a, a''), (u ''V'', u ''b, a'')] (u ''c'') = None"
  using load_abbreviation_dict_candidates [of "[(u ''W'', u ''a, a''), (u ''V'', u ''b, a'')]" "u ''a''"]
    load_abbreviation_dict_candidates [of "[(u ''W'', u ''a, a''), (u ''V'', u ''b, a'')]" "u ''c''"]
  by (simp add: str_split_sep_def u_def)

section \<open>Properties of the resolver\<close>

lemma resolve_nonempty:
  "possible_words \<noteq> [] \<Longrightarrow>
   resolve_abbreviation_with_llm model abbreviation context possible_words sent =
     (Inr (let full_word = str_strip (model sent (resolver_prompt abbreviation context possible_words))
           in if full_word \<in> set possible_words then full_word else possible_words ! 0),
      sent @ [resolver_prompt abbreviation context possible_words])"
  by (cases possible_words)
     (simp_all add: resolve_abbreviation_with_llm_def ollama_chat_def Let_def)

lemma resolve_empty:
  "resolve_abbreviation_with_llm model abbreviation context [] sent =
     (Inl IndexError, sent @ [resolver_prompt abbreviation context []])"
  by (simp add: resolve_abbreviation_with_llm_def ollama_chat_def Let_def)

lemma str_strip_Bank: "str_strip (u '' Bank '') = u ''Bank''"
  by (simp add: str_strip_def u_def isspace_def)

lemma resolve_Inr_member:
  "resolve_abbreviation_with_llm model abbr text ws sent = (Inr w, sent') \<Longrightarrow> w \<in> set ws"
  by (cases ws) (auto simp: resolve_nonempty resolve_empty Let_def split: if_splits)

text \<open>
  C1. With a non-empty candidate list the resolver returns a word, never an exception,
  whatever text the model replies; the word is a member of the candidate list: it is the
  trimmed reply when that is one of the candidates, and the first candidate otherwise.
  Exactly one prompt is sent.
\<close>

theorem resolve_in_candidates:
  assumes "possible_words \<noteq> []"
  shows "\<exists>w. resolve_abbreviation_with_llm model abbreviation context possible_words sent =
               (Inr w, sent @ [resolver_prompt abbreviation context possible_words])
             \<and> w \<in> set possible_words
             \<and> w = (if str_strip (model sent (resolver_prompt abbreviation context possible_words))
                        \<in> set possible_words
                    then str_strip (model sent (resolver_prompt abbreviation context possible_words))
                    else possible_words ! 0)"
proof -
  let ?reply = "str_strip (model sent (resolver_prompt abbreviation context possible_words))"
  let ?w = "if ?reply \<in> set possible_words then ?reply else possible_words ! 0"
  have "possible_words ! 0 \<in> set possible_words"
    using assms by simp
  then have "?w \<in> set possible_words"
    by simp
  moreover have "resolve_abbreviation_with_llm model abbreviation context possible_words sent =
      (Inr ?w, sent @ [resolver_prompt abbreviation context possible_words])"
    using resolve_nonempty [OF assms] by (simp add: Let_def)
  ultimately show ?thesis
    by blast
qed

theorem resolve_in_candidates_witness:
  "[u ''Payment'', u ''Permit''] \<noteq> []
   \<and> fst (resolve_abbreviation_with_llm (echo_model (u '' Bank '')) (u ''PMT'')
            (u ''TXN for PMT'') [u ''Payment'', u ''Permit''] []) = Inr (u ''Payment'')"
proof -
  have ne: "[u ''Payment'', u ''Permit''] \<noteq> []"
    by simp
  have "u ''Bank'' \<notin> set [u ''Payment'', u ''Permit'']"
    by (simp add: u_def)
  with resolve_in_candidates [OF ne, of "echo_model (u '' Bank '')" "u ''PMT''"
      "u ''TXN for PMT''" "[]"]
  show ?thesis
    by (auto simp: str_strip_Bank echo_model_def)
qed

text \<open>
  C10. The resolver is total exactly on the non-empty candidate lists: there the index 0
  of the fallback is in bounds and a word is returned for every reply of the model; on
  the empty list no reply is a member, the fallback reads index 0 of an empty list and
  the call ends in \<^verbatim>\<open>IndexError\<close>.
\<close>

theorem resolve_total_iff_nonempty:
  "(possible_words \<noteq> [] \<longrightarrow>
      (\<exists>w. fst (resolve_abbreviation_with_llm model abbreviation context possible_words sent)
            = Inr w))
   \<and> (possible_words = [] \<longrightarrow>
      fst (resolve_abbreviation_with_llm model abbreviation context possible_words sent)
        = Inl IndexError)"
  by (simp add: resolve_nonempty resolve_empty)

theorem resolve_total_iff_nonempty_witness:
  "[u ''Payment''] \<noteq> []
   \<and> (\<exists>w. fst (resolve_abbreviation_with_llm (echo_model []) (u ''PMT'') (u ''PMT'')
                  [u ''Payment''] []) = Inr w)
   \<and> ([] :: pystr list) = []
   \<and> fst (resolve_abbreviation_with_llm (echo_model []) (u ''PMT'') (u ''PMT'') [] [])
       = Inl IndexError"
  using resolve_total_iff_nonempty [of "[u ''Payment'']" "echo_model []" "u ''PMT''" "u ''PMT''" "[]"]
    resolve_total_iff_nonempty [of "[]" "echo_model []" "u ''PMT''" "u ''PMT''" "[]"]
  by simp

section \<open>Properties of the expander\<close>

lemma expand_loop_no_keys:
  "\<forall>t\<in>set words. m t = None \<Longrightarrow>
   expand_loop model text m words expanded_words sent = (Inr (expanded_words @ words), sent)"
  by (induction words arbitrary: expanded_words) auto

lemma expand_loop_step:
  assumes "\<forall>k ws. m k = Some ws \<longrightarrow> ws \<noteq> []"
  shows "\<exists>out sent1.
          expand_loop model text m (word # words) expanded_words sent
            = expand_loop model text m words (expanded_words @ [out]) sent1
        \<and> expand_token_rule model text m word sent out sent1"
proof (cases "m word")
  case None
  then show ?thesis by (simp add: expand_token_rule_def)
next
  case (Some ws)
  with assms have ne: "ws \<noteq> []" by blast
  show ?thesis
  proof (cases "length ws = 1")
    case True
    with Some show ?thesis by (simp add: expand_token_rule_def)
  next
    case False
    obtain out sent1 where
      r: "resolve_abbreviation_with_llm model word text ws sent = (Inr out, sent1)"
      using resolve_nonempty [OF ne] by blast
    have "expand_loop model text m (word # words) expanded_words sent
            = expand_loop model text m words (expanded_words @ [out]) sent1"
      using Some False r by simp
    moreover have "expand_token_rule model text m word sent out sent1"
      using Some False r by (simp add: expand_token_rule_def)
    ultimately show ?thesis
      by blast
  qed
qed

lemma expand_loop_per_token:
  assumes inv: "\<forall>k ws. m k = Some ws \<longrightarrow> ws \<noteq> []"
  shows "\<exists>outs sents.
           length outs = length words \<and> length sents = Suc (length words) \<and> sents ! 0 = sent
         \<and> expand_loop model text m words expanded_words sent
             = (Inr (expanded_words @ outs), last sents)
         \<and> (\<forall>i<length words.
               expand_token_rule model text m (words ! i) (sents ! i) (outs ! i) (sents ! Suc i))"
proof (induction words arbitrary: expanded_words sent)
  case Nil
  show ?case
    by (rule exI [of _ "[]"], rule exI [of _ "[sent]"]) simp
next
  case (Cons word words)
  from expand_loop_step [OF inv, of model "text" word words expanded_words sent]
  obtain out sent1 where
    step: "expand_loop model text m (word # words) expanded_words sent
             = expand_loop model text m words (expanded_words @ [out]) sent1"
    and rule: "expand_token_rule model text m word sent out sent1"
    by (elim exE conjE)
  from Cons.IH [of sent1 "expanded_words @ [out]"]
  obtain outs sents where
    len: "length outs = length words" "length sents = Suc (length words)"
    and first: "sents ! 0 = sent1"
    and res: "expand_loop model text m words (expanded_words @ [out]) sent1
              = (Inr ((expanded_words @ [out]) @ outs), last sents)"
    and rest: "\<forall>i<length words.
                 expand_token_rule model text m (words ! i) (sents ! i) (outs ! i) (sents ! Suc i)"
    by (elim exE conjE)
  from len have ne: "sents \<noteq> []"
    by auto
  have all: "\<forall>i<length (word # words).
          expand_token_rule model text m ((word # words) ! i) ((sent # sents) ! i)
            ((out # outs) ! i) ((sent # sents) ! Suc i)"
  proof (intro allI impI)
    fix i
    assume i: "i < length (word # words)"
    show "expand_token_rule model text m ((word # words) ! i) ((sent # sents) ! i)
            ((out # outs) ! i) ((sent # sents) ! Suc i)"
    proof (cases i)
      case 0
      with rule first show ?thesis
        by simp
    next
      case (Suc j)
      with i have "j < length words"
        by simp
      with rest have "expand_token_rule model text m (words ! j) (sents ! j) (outs ! j) (sents ! Suc j)"
        by blast
      with Suc show ?thesis
        by simp
    qed
  qed
  have run: "expand_loop model text m (word # words) expanded_words sent
          = (Inr (expanded_words @ out # outs), last (sent # sents))"
    unfolding step res using ne by simp
  have lens: "length (out # outs) = length (word # words)"
    "length (sent # sents) = Suc (length (word # words))" "(sent # sents) ! 0 = sent"
    using len by simp_all
  show ?case
    by (rule exI [of _ "out # outs"], rule exI [of _ "sent # sents"]) (intro conjI lens run all)
qed

lemma split_TXN_for_PMT: "str_split (u ''TXN for PMT'') = [u ''TXN'', u ''for'', u ''PMT'']"
  by (simp add: str_split_def u_def isspace_def)

lemma example_dict_lookup:
  "load_abbreviation_dict
     [(u ''Transaction'', u ''TXN''), (u ''Payment'', u ''PMT''), (u ''Permit'', u ''PMT'')] k =
   (if k = u ''TXN'' then Some [u ''Transaction'']
    else if k = u ''PMT'' then Some [u ''Payment'', u ''Permit''] else None)"
  by (simp add: load_abbreviation_dict_lookup dict_candidates_def str_split_sep_def u_def)

lemma example_run:
  "expand_abbreviations (echo_model (u ''Permit'')) (u ''TXN for PMT'')
     (load_abbreviation_dict
        [(u ''Transaction'', u ''TXN''), (u ''Payment'', u ''PMT''), (u ''Permit'', u ''PMT'')]) []
   = (Inr (u ''Transaction for Permit''),
      [resolver_prompt (u ''PMT'') (u ''TXN for PMT'') [u ''Payment'', u ''Permit'']])"
proof -
  have strip: "str_strip (u ''Permit'') = u ''Permit''"
    by (simp add: str_strip_def u_def isspace_def)
  have keys: "u ''for'' \<noteq> u ''TXN''" "u ''for'' \<noteq> u ''PMT''" "u ''PMT'' \<noteq> u ''TXN''"
    by (simp_all add: u_def)
  show ?thesis
    by (simp add: expand_abbreviations_def split_TXN_for_PMT example_dict_lookup keys
        resolve_nonempty echo_model_def strip)
       (simp add: u_def)
qed

text \<open>
  C3. On a map whose candidate lists are not empty, the expansion of a text is made token
  by token: with the tokens of \<^verbatim>\<open>text.split()\<close> there is one word written per token and
  the result is these words joined by single spaces; each word obeys the rule of its
  token (\<open>expand_token_rule\<close>): the token itself when it is not a key, the only candidate
  when there is exactly one, in both cases with no prompt sent, and otherwise the result
  of the resolver called with the token, the whole original text and the candidates.
  \<open>sents\<close> lists the prompts sent before each token and after the last.
\<close>

theorem expand_abbreviations_per_token:
  assumes "\<forall>k ws. m k = Some ws \<longrightarrow> ws \<noteq> []"
  shows "\<exists>outs sents.
           length outs = length (str_split text)
         \<and> length sents = Suc (length (str_split text))
         \<and> sents ! 0 = sent
         \<and> expand_abbreviations model text m sent = (Inr (str_join (u '' '') outs), last sents)
         \<and> (\<forall>i<length (str_split text).
               expand_token_rule model text m (str_split text ! i) (sents ! i) (outs ! i)
                 (sents ! Suc i))"
proof -
  from expand_loop_per_token [OF assms, of "str_split text" sent model "text" "[]"]
  obtain outs sents where
    len: "length outs = length (str_split text)" "length sents = Suc (length (str_split text))"
      "sents ! 0 = sent"
    and res: "expand_loop model text m (str_split text) [] sent = (Inr ([] @ outs), last sents)"
    and rules: "\<forall>i<length (str_split text).
               expand_token_rule model text m (str_split text ! i) (sents ! i) (outs ! i)
                 (sents ! Suc i)"
    by (elim exE conjE)
  have run: "expand_abbreviations model text m sent = (Inr (str_join (u '' '') outs), last sents)"
    by (simp add: expand_abbreviations_def res)
  show ?thesis
    by (rule exI [of _ outs], rule exI [of _ sents]) (intro conjI len run rules)
qed

theorem expand_abbreviations_per_token_witness:
  "load_abbreviation_dict
     [(u ''Transaction'', u ''TXN''), (u ''Payment'', u ''PMT''), (u ''Permit'', u ''PMT'')]
     (u ''TXN'') = Some [u ''Transaction'']
   \<and> load_abbreviation_dict
       [(u ''Transaction'', u ''TXN''), (u ''Payment'', u ''PMT''), (u ''Permit'', u ''PMT'')]
       (u ''PMT'') = Some [u ''Payment'', u ''Permit'']
   \<and> (\<exists>outs sents.
         length outs = 3 \<and> length sents = 4
       \<and> expand_abbreviations (echo_model (u ''Permit'')) (u ''TXN for PMT'')
           (load_abbreviation_dict
              [(u ''Transaction'', u ''TXN''), (u ''Payment'', u ''PMT''), (u ''Permit'', u ''PMT'')])
           []
         = (Inr (str_join (u '' '') outs), last sents))
   \<and> expand_abbreviations (echo_model (u ''Permit'')) (u ''TXN for PMT'')
       (load_abbreviation_dict
          [(u ''Transaction'', u ''TXN''), (u ''Payment'', u ''PMT''), (u ''Permit'', u ''PMT'')]) []
     = (Inr (u ''Transaction for Permit''),
        [resolver_prompt (u ''PMT'') (u ''TXN for PMT'') [u ''Payment'', u ''Permit'']])"
proof -
  let ?D = "load_abbreviation_dict
       [(u ''Transaction'', u ''TXN''), (u ''Payment'', u ''PMT''), (u ''Permit'', u ''PMT'')]"
  have inv: "\<forall>k ws. ?D k = Some ws \<longrightarrow> ws \<noteq> []"
    using load_abbreviation_dict_nonempty by metis
  have neq: "u ''PMT'' \<noteq> u ''TXN''"
    by (simp add: u_def)
  from expand_abbreviations_per_token [OF inv, of "u ''TXN for PMT''" "[]" "echo_model (u ''Permit'')"]
  have "\<exists>outs sents.
         length outs = 3 \<and> length sents = 4
       \<and> expand_abbreviations (echo_model (u ''Permit'')) (u ''TXN for PMT'') ?D []
         = (Inr (str_join (u '' '') outs), last sents)"
    unfolding split_TXN_for_PMT by (elim exE conjE, intro exI conjI) simp_all
  then show ?thesis
    using example_run neq by (simp add: example_dict_lookup)
qed

lemma empty_dict_lookup: "load_abbreviation_dict [] k = None"
  by (simp add: load_abbreviation_dict_lookup dict_candidates_def)

lemma split_a_b: "str_split (u ''a  b'') = [u ''a'', u ''b'']"
  by (simp add: str_split_def u_def isspace_def)

lemma split_a_b_single: "str_split (u ''a b'') = [u ''a'', u ''b'']"
  by (simp add: str_split_def u_def isspace_def)

text \<open>
  C4, as amended. When no token of the text is a key of the map, the expansion is the
  tokens of the text joined by single spaces, and no prompt is sent; it is the text
  itself exactly when the text already is its tokens joined by single spaces.
\<close>

theorem expand_no_matches:
  assumes "\<forall>t\<in>set (str_split text). m t = None"
  shows "expand_abbreviations model text m sent
           = (Inr (str_join (u '' '') (str_split text)), sent)
       \<and> (fst (expand_abbreviations model text m sent) = Inr text
            \<longleftrightarrow> str_join (u '' '') (str_split text) = text)"
proof -
  have "expand_loop model text m (str_split text) [] sent = (Inr ([] @ str_split text), sent)"
    using assms by (rule expand_loop_no_keys)
  then have "expand_abbreviations model text m sent
           = (Inr (str_join (u '' '') (str_split text)), sent)"
    by (simp add: expand_abbreviations_def)
  then show ?thesis
    by simp
qed

theorem expand_no_matches_witness:
  "str_split (u ''a b'') = [u ''a'', u ''b'']
   \<and> load_abbreviation_dict [] (u ''a'') = None \<and> load_abbreviation_dict [] (u ''b'') = None
   \<and> expand_abbreviations (echo_model []) (u ''a b'') (load_abbreviation_dict []) []
       = (Inr (u ''a b''), [])"
proof -
  have none: "\<forall>t\<in>set (str_split (u ''a b'')). load_abbreviation_dict [] t = None"
    by (simp add: empty_dict_lookup)
  have "str_join (u '' '') (str_split (u ''a b'')) = u ''a b''"
    by (simp add: split_a_b_single) (simp add: u_def)
  with expand_no_matches [OF none, of "echo_model []" "[]"]
  have "expand_abbreviations (echo_model []) (u ''a b'') (load_abbreviation_dict []) []
       = (Inr (u ''a b''), [])"
    by simp
  moreover have "load_abbreviation_dict [] (u ''a'') = None"
    "load_abbreviation_dict [] (u ''b'') = None"
    by (rule empty_dict_lookup)+
  ultimately show ?thesis
    using split_a_b_single by blast
qed

text \<open>
  The claim as stated fails on a text with two spaces in a row: no token is a key, and
  the expansion has one space.
\<close>

theorem expand_no_matches_counterexample:
  "str_split (u ''a  b'') = [u ''a'', u ''b'']
   \<and> load_abbreviation_dict [] (u ''a'') = None
   \<and> load_abbreviation_dict [] (u ''b'') = None
   \<and> expand_abbreviations (echo_model []) (u ''a  b'') (load_abbreviation_dict []) []
       = (Inr (u ''a b''), [])
   \<and> u ''a b'' \<noteq> u ''a  b''"
proof -
  have "expand_abbreviations (echo_model []) (u ''a  b'') (load_abbreviation_dict []) []
       = (Inr (u ''a b''), [])"
    by (simp add: expand_abbreviations_def split_a_b empty_dict_lookup) (simp add: u_def)
  moreover have "u ''a b'' \<noteq> u ''a  b''"
    by (simp add: u_def)
  ultimately show ?thesis
    by (simp add: split_a_b empty_dict_lookup)
qed

lemma expand_loop_normalised:
  assumes dict: "\<forall>k ws. m k = Some ws \<longrightarrow> (\<forall>w\<in>set ws. normalised w)"
  shows "expand_loop model text m words expanded_words sent = (Inr res, sent') \<Longrightarrow>
         \<forall>w\<in>set expanded_words. normalised w \<Longrightarrow> \<forall>t\<in>set words. is_token t \<Longrightarrow>
         \<forall>w\<in>set res. normalised w"
proof (induction words arbitrary: expanded_words sent)
  case Nil
  then show ?case by simp
next
  case (Cons word words)
  from Cons.prems(3) have tokens: "\<forall>t\<in>set words. is_token t" and word: "normalised word"
    by (simp_all add: normalised_token)
  show ?case
  proof (cases "m word")
    case None
    with Cons.prems(1) have "expand_loop model text m words (expanded_words @ [word]) sent
                             = (Inr res, sent')"
      by simp
    moreover have "\<forall>w\<in>set (expanded_words @ [word]). normalised w"
      using Cons.prems(2) word by simp
    ultimately show ?thesis
      using tokens by (rule Cons.IH)
  next
    case (Some ws)
    with dict have ws: "\<forall>w\<in>set ws. normalised w"
      by blast
    show ?thesis
    proof (cases "length ws = 1")
      case True
      then have "ws ! 0 \<in> set ws"
        by (cases ws) simp_all
      with ws have "\<forall>w\<in>set (expanded_words @ [ws ! 0]). normalised w"
        using Cons.prems(2) by simp
      moreover have "expand_loop model text m words (expanded_words @ [ws ! 0]) sent
                     = (Inr res, sent')"
        using Cons.prems(1) Some True by simp
      ultimately show ?thesis
        using tokens Cons.IH by blast
    next
      case False
      obtain r sent1 where
        r: "resolve_abbreviation_with_llm model word text ws sent = (r, sent1)"
        by (cases "resolve_abbreviation_with_llm model word text ws sent")
      show ?thesis
      proof (cases r)
        case (Inl e)
        with Cons.prems(1) Some False r show ?thesis
          by simp
      next
        case (Inr full_word)
        with r have "full_word \<in> set ws"
          by (simp add: resolve_Inr_member)
        with ws have "\<forall>w\<in>set (expanded_words @ [full_word]). normalised w"
          using Cons.prems(2) by simp
        moreover have "expand_loop model text m words (expanded_words @ [full_word]) sent1
                       = (Inr res, sent')"
          using Cons.prems(1) Some False r Inr by simp
        ultimately show ?thesis
          using tokens Cons.IH by blast
      qed
    qed
  qed
qed

lemma expand_abbreviations_normalised:
  assumes "\<forall>k ws. m k = Some ws \<longrightarrow> (\<forall>w\<in>set ws. normalised w)"
    and "expand_abbreviations model text m sent = (Inr expanded, sent')"
  shows "str_join (u '' '') (str_split expanded) = expanded"
proof -
  obtain r s where loop: "expand_loop model text m (str_split text) [] sent = (r, s)"
    by (cases "expand_loop model text m (str_split text) [] sent")
  with assms(2) obtain res where
    res: "r = Inr res" and expanded: "expanded = str_join (u '' '') res"
    by (cases r) (auto simp: expand_abbreviations_def)
  have "\<forall>w\<in>set res. normalised w"
    using loop [unfolded res]
    by (rule expand_loop_normalised [OF assms(1)]) (simp_all add: str_split_tokens)
  then show ?thesis
    unfolding expanded by (rule join_split_join)
qed

lemma split_Transaction_for_Permit:
  "str_split (u ''Transaction for Permit'') = [u ''Transaction'', u ''for'', u ''Permit'']"
  by (simp add: str_split_def u_def isspace_def)

lemma example_dict_normalised:
  "\<forall>k ws. load_abbreviation_dict
       [(u ''Transaction'', u ''TXN''), (u ''Payment'', u ''PMT''), (u ''Permit'', u ''PMT'')] k
       = Some ws \<longrightarrow> (\<forall>w\<in>set ws. w \<noteq> [] \<and> str_join (u '' '') (str_split w) = w)"
proof -
  have "str_split (u ''Transaction'') = [u ''Transaction'']"
    "str_split (u ''Payment'') = [u ''Payment'']" "str_split (u ''Permit'') = [u ''Permit'']"
    by (simp_all add: str_split_def u_def isspace_def)
  moreover have "u ''Transaction'' \<noteq> []" "u ''Payment'' \<noteq> []" "u ''Permit'' \<noteq> []"
    by (simp_all add: u_def)
  ultimately show ?thesis
    by (auto simp: example_dict_lookup split: if_splits)
qed

text \<open>
  C8, as amended. When no token of an expansion is a key of the map, expanding it again
  sends no prompt and gives its tokens joined by single spaces; this is the expansion
  itself when every full word of the map is normalised (not empty, and equal to its
  tokens joined by single spaces).
\<close>

theorem expand_idempotent_normalised:
  assumes "expand_abbreviations model text m sent = (Inr expanded, sent1)"
    and "\<forall>t\<in>set (str_split expanded). m t = None"
  shows "expand_abbreviations model' expanded m sent1
           = (Inr (str_join (u '' '') (str_split expanded)), sent1)
       \<and> ((\<forall>k ws. m k = Some ws \<longrightarrow>
              (\<forall>w\<in>set ws. w \<noteq> [] \<and> str_join (u '' '') (str_split w) = w))
          \<longrightarrow> expand_abbreviations model' expanded m sent1 = (Inr expanded, sent1))"
proof -
  have again: "expand_abbreviations model' expanded m sent1
           = (Inr (str_join (u '' '') (str_split expanded)), sent1)"
    using expand_loop_no_keys [OF assms(2), of model' expanded "[]" sent1]
    by (simp add: expand_abbreviations_def)
  have "str_join (u '' '') (str_split expanded) = expanded"
    if "\<forall>k ws. m k = Some ws \<longrightarrow>
              (\<forall>w\<in>set ws. w \<noteq> [] \<and> str_join (u '' '') (str_split w) = w)"
    using that assms(1) expand_abbreviations_normalised [of m model "text" sent expanded sent1]
    by (simp add: normalised_def)
  with again show ?thesis
    by simp
qed

theorem expand_idempotent_normalised_witness:
  "expand_abbreviations (echo_model (u ''Permit'')) (u ''TXN for PMT'')
     (load_abbreviation_dict
        [(u ''Transaction'', u ''TXN''), (u ''Payment'', u ''PMT''), (u ''Permit'', u ''PMT'')]) []
   = (Inr (u ''Transaction for Permit''),
      [resolver_prompt (u ''PMT'') (u ''TXN for PMT'') [u ''Payment'', u ''Permit'']])
   \<and> str_split (u ''Transaction for Permit'') = [u ''Transaction'', u ''for'', u ''Permit'']
   \<and> load_abbreviation_dict
       [(u ''Transaction'', u ''TXN''), (u ''Payment'', u ''PMT''), (u ''Permit'', u ''PMT'')]
       (u ''Transaction'') = None
   \<and> load_abbreviation_dict
       [(u ''Transaction'', u ''TXN''), (u ''Payment'', u ''PMT''), (u ''Permit'', u ''PMT'')]
       (u ''for'') = None
   \<and> load_abbreviation_dict
       [(u ''Transaction'', u ''TXN''), (u ''Payment'', u ''PMT''), (u ''Permit'', u ''PMT'')]
       (u ''Permit'') = None
   \<and> expand_abbreviations (echo_model (u ''Permit'')) (u ''Transaction for Permit'')
       (load_abbreviation_dict
          [(u ''Transaction'', u ''TXN''), (u ''Payment'', u ''PMT''), (u ''Permit'', u ''PMT'')])
       [resolver_prompt (u ''PMT'') (u ''TXN for PMT'') [u ''Payment'', u ''Permit'']]
     = (Inr (u ''Transaction for Permit''),
        [resolver_prompt (u ''PMT'') (u ''TXN for PMT'') [u ''Payment'', u ''Permit'']])"
proof -
  let ?D = "load_abbreviation_dict
        [(u ''Transaction'', u ''TXN''), (u ''Payment'', u ''PMT''), (u ''Permit'', u ''PMT'')]"
  have absent: "?D (u ''Transaction'') = None" "?D (u ''for'') = None" "?D (u ''Permit'') = None"
    by (simp_all add: example_dict_lookup) (simp_all add: u_def)
  then have no_keys: "\<forall>t\<in>set (str_split (u ''Transaction for Permit'')). ?D t = None"
    by (simp add: split_Transaction_for_Permit)
  from expand_idempotent_normalised [OF example_run no_keys, of "echo_model (u ''Permit'')"]
    example_dict_normalised
  have "expand_abbreviations (echo_model (u ''Permit'')) (u ''Transaction for Permit'') ?D
       [resolver_prompt (u ''PMT'') (u ''TXN for PMT'') [u ''Payment'', u ''Permit'']]
     = (Inr (u ''Transaction for Permit''),
        [resolver_prompt (u ''PMT'') (u ''TXN for PMT'') [u ''Payment'', u ''Permit'']])"
    by blast
  with example_run absent show ?thesis
    by (simp add: split_Transaction_for_Permit)
qed

lemma trailing_dict_lookup:
  "load_abbreviation_dict [(u ''Payment '', u ''PMT'')] k =
     (if k = u ''PMT'' then Some [u ''Payment ''] else None)"
  by (simp add: load_abbreviation_dict_lookup dict_candidates_def str_split_sep_def u_def)

lemma split_PMT: "str_split (u ''PMT'') = [u ''PMT'']"
  by (simp add: str_split_def u_def isspace_def)

lemma split_Payment_trailing: "str_split (u ''Payment '') = [u ''Payment'']"
  by (simp add: str_split_def u_def isspace_def)

text \<open>
  The claim as stated fails when a full word of the dictionary ends in a space: the
  expansion keeps the space, none of its tokens is a key, and the second expansion drops
  the space.
\<close>

theorem expand_idempotent_counterexample:
  "expand_abbreviations (echo_model []) (u ''PMT'')
     (load_abbreviation_dict [(u ''Payment '', u ''PMT'')]) [] = (Inr (u ''Payment ''), [])
   \<and> str_split (u ''Payment '') = [u ''Payment'']
   \<and> load_abbreviation_dict [(u ''Payment '', u ''PMT'')] (u ''Payment'') = None
   \<and> expand_abbreviations (echo_model []) (u ''Payment '')
       (load_abbreviation_dict [(u ''Payment '', u ''PMT'')]) [] = (Inr (u ''Payment''), [])
   \<and> u ''Payment'' \<noteq> u ''Payment ''"
proof -
  have neq: "u ''Payment'' \<noteq> u ''PMT''" "u ''Payment'' \<noteq> u ''Payment ''"
    by (simp_all add: u_def)
  have first: "expand_abbreviations (echo_model []) (u ''PMT'')
     (load_abbreviation_dict [(u ''Payment '', u ''PMT'')]) [] = (Inr (u ''Payment ''), [])"
    by (simp add: expand_abbreviations_def split_PMT trailing_dict_lookup)
  have second: "expand_abbreviations (echo_model []) (u ''Payment '')
       (load_abbreviation_dict [(u ''Payment '', u ''PMT'')]) [] = (Inr (u ''Payment''), [])"
    by (simp add: expand_abbreviations_def split_Payment_trailing trailing_dict_lookup neq)
  show ?thesis
    by (simp add: first second split_Payment_trailing trailing_dict_lookup neq)
qed

section \<open>Properties of the tables\<close>

lemma set_unique: "set (unique xs) = set xs"
  by (simp add: unique_def)

lemma loc_map: "loc cols (map f cols) c = (if c \<in> set cols then f c else NaN)"
  by (simp add: loc_def map_of_zip_map)

lemma loc_absent: "c \<notin> set cols \<Longrightarrow> loc cols r c = NaN"
proof -
  assume "c \<notin> set cols"
  then have "c \<notin> fst ` set (zip cols r)"
    by (auto dest: set_zip_leftD)
  then have "map_of (zip cols r) c = None"
    by (simp add: map_of_eq_None_iff)
  then show ?thesis
    by (simp add: loc_def)
qed

lemma record_get_absent: "k \<notin> fst ` set r \<Longrightarrow> record_get r k = NaN"
proof -
  assume "k \<notin> fst ` set r"
  then have "map_of r k = None"
    by (simp add: map_of_eq_None_iff)
  then show ?thesis
    by (simp add: record_get_def)
qed

lemma columns_DataFrame:
  "set (columns (DataFrame records)) = (\<Union>r\<in>set records. fst ` set r)"
  by (auto simp: DataFrame_def Let_def set_unique)

lemma length_rows_DataFrame: "length (rows (DataFrame records)) = length records"
  by (simp add: DataFrame_def Let_def)

lemma cell_at_DataFrame:
  assumes "i < length records"
  shows "cell_at (DataFrame records) i k = record_get (records ! i) k"
proof (cases "k \<in> set (columns (DataFrame records))")
  case True
  with assms show ?thesis
    by (simp add: cell_at_def DataFrame_def Let_def loc_map)
next
  case False
  with assms have "k \<notin> fst ` set (records ! i)"
    unfolding columns_DataFrame using nth_mem [of i records] by blast
  with False assms show ?thesis
    by (simp add: cell_at_def DataFrame_def Let_def loc_map record_get_absent)
qed

lemma columns_set_column:
  "set (columns (set_column c values df)) = insert c (set (columns df))"
  by (auto simp: set_column_def Let_def)

lemma rows_set_column:
  "length values = length (rows df) \<Longrightarrow> i < length (rows df) \<Longrightarrow>
   loc (columns (set_column c values df)) (rows (set_column c values df) ! i) k
     = (if k = c then values ! i else loc (columns df) (rows df ! i) k)"
  by (auto simp: set_column_def Let_def loc_map loc_absent)

lemma length_rows_set_column:
  "length values = length (rows df) \<Longrightarrow> length (rows (set_column c values df)) = length (rows df)"
  by (simp add: set_column_def Let_def)

lemma rows_of_set_column:
  "rows (set_column c values df)
   = map (\<lambda>(r, v). map (\<lambda>k. if k = c then v else loc (columns df) r k)
                      (columns (set_column c values df)))
         (zip (rows df) values)"
  by (simp add: set_column_def Let_def)

lemma get_column_set_column_same:
  assumes "length values = length (rows df)"
  shows "get_column (set_column c values df) c = Inr values"
proof -
  have "map (\<lambda>r. loc (columns (set_column c values df)) r c) (rows (set_column c values df))
        = map snd (zip (rows df) values)"
    by (simp add: rows_of_set_column loc_map columns_set_column case_prod_unfold)
  with assms show ?thesis
    by (simp add: get_column_def columns_set_column)
qed

lemma get_column_set_column_other:
  assumes "length values = length (rows df)" "c' \<noteq> c"
  shows "get_column (set_column c values df) c' = get_column df c'"
proof (cases "c' \<in> set (columns df)")
  case True
  have "map (\<lambda>r. loc (columns (set_column c values df)) r c') (rows (set_column c values df))
        = map (\<lambda>r. loc (columns df) r c') (map fst (zip (rows df) values))"
    using True assms(2)
    by (simp add: rows_of_set_column loc_map columns_set_column case_prod_unfold)
  with assms True show ?thesis
    by (simp add: get_column_def columns_set_column)
next
  case False
  with assms show ?thesis
    by (simp add: get_column_def columns_set_column)
qed

lemma get_column_length: "get_column df c = Inr xs \<Longrightarrow> length xs = length (rows df)"
  by (auto simp: get_column_def split: if_splits)

lemma length_rows_concat: "length (rows (pd_concat a b)) = length (rows a) + length (rows b)"
  by (simp add: pd_concat_def Let_def)

lemma columns_concat: "set (columns (pd_concat a b)) = set (columns a) \<union> set (columns b)"
  by (simp add: pd_concat_def Let_def set_unique)

lemma cell_at_concat_left:
  "i < length (rows a) \<Longrightarrow> cell_at (pd_concat a b) i k = cell_at a i k"
  by (cases "k \<in> set (columns a)")
     (simp_all add: cell_at_def pd_concat_def Let_def nth_append loc_map set_unique loc_absent)

lemma cell_at_concat_right:
  "length (rows a) \<le> i \<Longrightarrow> i < length (rows a) + length (rows b) \<Longrightarrow>
   cell_at (pd_concat a b) i k = cell_at b (i - length (rows a)) k"
  by (cases "k \<in> set (columns b)")
     (simp_all add: cell_at_def pd_concat_def Let_def nth_append loc_map set_unique loc_absent)

section \<open>Properties of the reconciliation\<close>

lemma reconcile_complete:
  "length (rows df) \<le> length cats \<Longrightarrow> reconcile df cats = DataFrame cats"
  by (simp add: reconcile_def)

lemma reconcile_missing:
  assumes "length cats < length (rows df)"
  shows "reconcile df cats =
           pd_concat (DataFrame cats)
             (set_column (u ''category'')
                (replicate (length (rows df) - length cats) (Text fallback_category))
                (iloc_from (length cats) df))"
  using assms by (simp add: reconcile_def Let_def iloc_from_def)

lemma cell_at_uncategorized:
  assumes "j < length (rows df) - n"
  shows "cell_at (set_column c (replicate (length (rows df) - n) v) (iloc_from n df)) j k
         = (if k = c then v else cell_at df (n + j) k)"
proof -
  have "length (replicate (length (rows df) - n) v) = length (rows (iloc_from n df))"
    by (simp add: iloc_from_def)
  moreover have "j < length (rows (iloc_from n df))"
    using assms by (simp add: iloc_from_def)
  ultimately have
    "cell_at (set_column c (replicate (length (rows df) - n) v) (iloc_from n df)) j k
     = (if k = c then replicate (length (rows df) - n) v ! j
        else loc (columns (iloc_from n df)) (rows (iloc_from n df) ! j) k)"
    unfolding cell_at_def by (rule rows_set_column)
  with assms show ?thesis
    by (simp add: cell_at_def iloc_from_def)
qed

lemma uncategorized_length:
  "length (rows (set_column c (replicate (length (rows df) - n) v) (iloc_from n df)))
   = length (rows df) - n"
  by (simp add: set_column_def Let_def iloc_from_def)

lemma reconcile_length:
  assumes "length cats < length (rows df)"
  shows "length (rows (reconcile df cats)) = length (rows df)"
  using assms
  by (simp add: reconcile_missing length_rows_concat length_rows_DataFrame uncategorized_length)

lemma reconcile_classified_cell:
  assumes "i < length cats"
  shows "cell_at (reconcile df cats) i k = record_get (cats ! i) k"
proof (cases "length cats < length (rows df)")
  case True
  with assms show ?thesis
    by (simp add: reconcile_missing cell_at_concat_left length_rows_DataFrame cell_at_DataFrame)
next
  case False
  with assms show ?thesis
    by (simp add: reconcile_complete cell_at_DataFrame)
qed

lemma reconcile_tail_cell:
  assumes "length cats \<le> i" "i < length (rows df)"
  shows "cell_at (reconcile df cats) i k
         = (if k = u ''category'' then Text fallback_category else cell_at df i k)"
proof -
  let ?U = "set_column (u ''category'')
              (replicate (length (rows df) - length cats) (Text fallback_category))
              (iloc_from (length cats) df)"
  from assms have less: "length cats < length (rows df)"
    by simp
  have "cell_at (reconcile df cats) i k = cell_at ?U (i - length cats) k"
    using assms
    by (simp add: reconcile_missing [OF less] cell_at_concat_right length_rows_DataFrame
        uncategorized_length)
  also have "\<dots> = (if k = u ''category'' then Text fallback_category
                  else cell_at df (length cats + (i - length cats)) k)"
    using assms by (intro cell_at_uncategorized) simp
  finally show ?thesis
    using assms by simp
qed

lemma reconcile_row_lengths:
  "r \<in> set (rows (reconcile df cats)) \<Longrightarrow> length r = length (columns (reconcile df cats))"
  by (cases "length cats < length (rows df)")
     (auto simp: reconcile_missing reconcile_complete pd_concat_def DataFrame_def Let_def)

lemma reconcile_column_set:
  "set (columns (reconcile df cats))
     = (\<Union>r\<in>set cats. fst ` set r)
       \<union> (if length cats < length (rows df) then insert (u ''category'') (set (columns df))
          else {})"
  by (cases "length cats < length (rows df)")
     (simp_all add: reconcile_missing reconcile_complete columns_concat columns_DataFrame
        columns_set_column iloc_from_def)

lemma example_lengths:
  "length (rows example_transactions) = 5" "length example_classified = 3"
  by (simp_all add: example_transactions_def example_classified_def)

lemma example_columns: "columns example_transactions = [u ''REMARK_CLEAN'', u ''REMARK'']"
  by (simp add: example_transactions_def)

text \<open>
  C2, as amended. With fewer records than transactions the table has one row per
  transaction: first the records, in order, then the transactions from the position of
  the first missing one on, each with the label of line 188 as its category and its
  other cells unchanged. On five transactions and three records, rows 4 and 5 carry
  that label.
\<close>

theorem reconcile_backfills_tail:
  assumes "length cats < length (rows df)"
  shows "length (rows (reconcile df cats)) = length (rows df)
       \<and> (\<forall>i<length cats. \<forall>k. cell_at (reconcile df cats) i k = record_get (cats ! i) k)
       \<and> (\<forall>i. length cats \<le> i \<and> i < length (rows df) \<longrightarrow>
            (\<forall>k. cell_at (reconcile df cats) i k
                 = (if k = u ''category'' then Text fallback_category else cell_at df i k)))"
  using reconcile_length [OF assms]
  by (simp add: reconcile_classified_cell reconcile_tail_cell)

theorem reconcile_backfills_tail_witness:
  "length example_classified < length (rows example_transactions)
   \<and> length (rows (reconcile example_transactions example_classified)) = 5
   \<and> cell_at (reconcile example_transactions example_classified) 2 (u ''category'')
       = Text (u ''A'')
   \<and> cell_at (reconcile example_transactions example_classified) 3 (u ''category'')
       = Text [75, 104, 225, 99]
   \<and> cell_at (reconcile example_transactions example_classified) 4 (u ''category'')
       = Text [75, 104, 225, 99]
   \<and> cell_at (reconcile example_transactions example_classified) 4 (u ''REMARK_CLEAN'')
       = Text (u ''t5'')"
proof -
  have less: "length example_classified < length (rows example_transactions)"
    by (simp add: example_lengths)
  have third: "record_get (example_classified ! 2) (u ''category'') = Text (u ''A'')"
    by (simp add: example_classified_def record_get_def u_def)
  have fifth: "cell_at example_transactions 4 (u ''REMARK_CLEAN'') = Text (u ''t5'')"
    by (simp add: example_transactions_def cell_at_def loc_def)
  have neq: "u ''REMARK_CLEAN'' \<noteq> u ''category''"
    by (simp add: u_def)
  from reconcile_backfills_tail [OF less] show ?thesis
    by (simp add: example_lengths third fifth neq fallback_category_def)
qed

text \<open>
  The claim as stated fails on the example: the label that rows 4 and 5 carry is not
  \<^verbatim>\<open>"Uncategorized"\<close>.
\<close>

theorem reconcile_backfills_tail_counterexample:
  "length (rows example_transactions) = 5 \<and> length example_classified = 3
   \<and> length (rows (reconcile example_transactions example_classified)) = 5
   \<and> cell_at (reconcile example_transactions example_classified) 3 (u ''category'')
       = Text [75, 104, 225, 99]
   \<and> cell_at (reconcile example_transactions example_classified) 4 (u ''category'')
       = Text [75, 104, 225, 99]
   \<and> Text [75, 104, 225, 99] \<noteq> Text (u ''Uncategorized'')"
proof -
  have "length (rows (reconcile example_transactions example_classified)) = 5"
    using reconcile_length [of example_classified example_transactions]
    by (simp add: example_lengths)
  moreover have "cell_at (reconcile example_transactions example_classified) 3 (u ''category'')
       = Text [75, 104, 225, 99]"
    using reconcile_tail_cell [of example_classified 3 example_transactions "u ''category''"]
    by (simp add: example_lengths fallback_category_def)
  moreover have "cell_at (reconcile example_transactions example_classified) 4 (u ''category'')
       = Text [75, 104, 225, 99]"
    using reconcile_tail_cell [of example_classified 4 example_transactions "u ''category''"]
    by (simp add: example_lengths fallback_category_def)
  moreover have "Text [75, 104, 225, 99] \<noteq> Text (u ''Uncategorized'')"
    by (simp add: u_def)
  ultimately show ?thesis
    by (simp add: example_lengths)
qed

text \<open>
  C5. With as many records as transactions, or more, the table is the parsed response
  as it is: one row per record, in order, each cell the value of the record under that
  key, and no row is dropped or added.
\<close>

theorem reconcile_passes_through:
  assumes "length (rows df) \<le> length cats"
  shows "reconcile df cats = DataFrame cats
       \<and> length (rows (reconcile df cats)) = length cats
       \<and> (\<forall>i<length cats. \<forall>k. cell_at (reconcile df cats) i k = record_get (cats ! i) k)"
  using assms
  by (simp add: reconcile_complete length_rows_DataFrame cell_at_DataFrame)

theorem reconcile_passes_through_witness:
  "length (rows (iloc_from 2 example_transactions)) \<le> length example_classified
   \<and> reconcile (iloc_from 2 example_transactions) example_classified
       = DataFrame example_classified
   \<and> length (rows (iloc_from 3 example_transactions)) \<le> length example_classified
   \<and> length (rows (reconcile (iloc_from 3 example_transactions) example_classified)) = 3
   \<and> cell_at (reconcile (iloc_from 3 example_transactions) example_classified) 2
        (u ''transaction'') = Text (u ''t3'')"
proof -
  have same: "length (rows (iloc_from 2 example_transactions)) \<le> length example_classified"
    by (simp add: iloc_from_def example_lengths)
  have more: "length (rows (iloc_from 3 example_transactions)) \<le> length example_classified"
    by (simp add: iloc_from_def example_lengths)
  have third: "record_get (example_classified ! 2) (u ''transaction'') = Text (u ''t3'')"
    by (simp add: example_classified_def record_get_def)
  from reconcile_passes_through [OF same]
  have a: "reconcile (iloc_from 2 example_transactions) example_classified
           = DataFrame example_classified"
    by (rule conjunct1)
  from reconcile_passes_through [OF more]
  have b: "length (rows (reconcile (iloc_from 3 example_transactions) example_classified))
           = length example_classified"
    and c: "\<forall>i<length example_classified. \<forall>k.
              cell_at (reconcile (iloc_from 3 example_transactions) example_classified) i k
              = record_get (example_classified ! i) k"
    by blast+
  from c have "cell_at (reconcile (iloc_from 3 example_transactions) example_classified) 2
        (u ''transaction'') = Text (u ''t3'')"
    by (simp add: example_lengths third)
  with a b same more show ?thesis
    by (simp add: example_lengths)
qed

text \<open>
  C9, as amended. The columns of the table are the keys of the records and, when
  transactions are missing, also the columns of the table of transactions and
  \<^verbatim>\<open>category\<close>; every row has a cell for every column; a fallback row has no value under
  a column that the table of transactions does not have (other than \<^verbatim>\<open>category\<close>), and a
  classified row has no value under a column that is not a key of its record. Under
  every column other than \<^verbatim>\<open>category\<close> a fallback row has the cell of its transaction.
\<close>

theorem reconcile_columns:
  "set (columns (reconcile df cats))
     = (\<Union>r\<in>set cats. fst ` set r)
       \<union> (if length cats < length (rows df) then insert (u ''category'') (set (columns df))
          else {})
   \<and> (\<forall>r\<in>set (rows (reconcile df cats)). length r = length (columns (reconcile df cats)))
   \<and> (\<forall>i c. length cats \<le> i \<and> i < length (rows df) \<and> c \<notin> set (columns df)
          \<and> c \<noteq> u ''category'' \<longrightarrow> cell_at (reconcile df cats) i c = NaN)
   \<and> (\<forall>i c. i < length cats \<and> c \<notin> fst ` set (cats ! i)
          \<longrightarrow> cell_at (reconcile df cats) i c = NaN)
   \<and> (\<forall>i c. length cats \<le> i \<and> i < length (rows df) \<and> c \<noteq> u ''category''
          \<longrightarrow> cell_at (reconcile df cats) i c = cell_at df i c)"
proof (intro conjI allI impI ballI)
  show "set (columns (reconcile df cats))
     = (\<Union>r\<in>set cats. fst ` set r)
       \<union> (if length cats < length (rows df) then insert (u ''category'') (set (columns df))
          else {})"
    by (rule reconcile_column_set)
next
  fix r
  assume "r \<in> set (rows (reconcile df cats))"
  then show "length r = length (columns (reconcile df cats))"
    by (rule reconcile_row_lengths)
next
  fix i c
  assume "length cats \<le> i \<and> i < length (rows df) \<and> c \<notin> set (columns df) \<and> c \<noteq> u ''category''"
  then show "cell_at (reconcile df cats) i c = NaN"
    by (simp add: reconcile_tail_cell) (simp add: cell_at_def loc_absent)
next
  fix i c
  assume "i < length cats \<and> c \<notin> fst ` set (cats ! i)"
  then show "cell_at (reconcile df cats) i c = NaN"
    by (simp add: reconcile_classified_cell record_get_absent)
next
  fix i c
  assume "length cats \<le> i \<and> i < length (rows df) \<and> c \<noteq> u ''category''"
  then show "cell_at (reconcile df cats) i c = cell_at df i c"
    by (simp add: reconcile_tail_cell)
qed

theorem reconcile_columns_witness:
  "(3 \<le> (3::nat) \<and> (3::nat) < 5 \<and> u ''transaction'' \<notin> set (columns example_transactions)
      \<and> u ''transaction'' \<noteq> u ''category'')
   \<and> cell_at (reconcile example_transactions example_classified) 3 (u ''transaction'') = NaN
   \<and> ((0::nat) < 3 \<and> u ''REMARK_CLEAN'' \<notin> fst ` set (example_classified ! 0))
   \<and> cell_at (reconcile example_transactions example_classified) 0 (u ''REMARK_CLEAN'') = NaN
   \<and> set (columns (reconcile example_transactions example_classified))
       = {u ''transaction'', u ''category'', u ''REMARK_CLEAN'', u ''REMARK''}"
proof -
  have absent: "u ''transaction'' \<notin> set (columns example_transactions)"
    "u ''transaction'' \<noteq> u ''category''"
    "u ''REMARK_CLEAN'' \<notin> fst ` set (example_classified ! 0)"
    by (simp_all add: example_columns example_classified_def u_def)
  have keys: "(\<Union>r\<in>set example_classified. fst ` set r) = {u ''transaction'', u ''category''}"
    by (auto simp: example_classified_def)
  from reconcile_columns [of example_transactions example_classified] absent
  have "cell_at (reconcile example_transactions example_classified) 3 (u ''transaction'') = NaN"
    "cell_at (reconcile example_transactions example_classified) 0 (u ''REMARK_CLEAN'') = NaN"
    "set (columns (reconcile example_transactions example_classified))
       = {u ''transaction'', u ''category'', u ''REMARK_CLEAN'', u ''REMARK''}"
    by (auto simp: example_lengths example_columns keys)
  with absent show ?thesis
    by simp
qed

text \<open>
  The claim as stated fails on the example: the table has four columns, the fallback
  rows come with the columns of the table of transactions, not with those of the
  records, and row 4 has its text under \<^verbatim>\<open>REMARK_CLEAN\<close> and nothing under
  \<^verbatim>\<open>transaction\<close>.
\<close>

theorem reconcile_columns_counterexample:
  "columns (reconcile example_transactions example_classified)
     = [u ''transaction'', u ''category'', u ''REMARK_CLEAN'', u ''REMARK'']
   \<and> [u ''transaction'', u ''category'', u ''REMARK_CLEAN'', u ''REMARK'']
     \<noteq> [u ''transaction'', u ''category'']
   \<and> columns (DataFrame example_classified) = [u ''transaction'', u ''category'']
   \<and> columns (set_column (u ''category'') (replicate 2 (Text fallback_category))
                (iloc_from 3 example_transactions))
     = [u ''REMARK_CLEAN'', u ''REMARK'', u ''category'']
   \<and> cell_at (reconcile example_transactions example_classified) 3 (u ''transaction'') = NaN
   \<and> cell_at (reconcile example_transactions example_classified) 3 (u ''REMARK_CLEAN'')
     = Text (u ''t4'')"
proof -
  have neq: "u ''transaction'' \<noteq> u ''category''" "u ''REMARK_CLEAN'' \<noteq> u ''category''"
    "u ''REMARK'' \<noteq> u ''category''" "u ''REMARK_CLEAN'' \<noteq> u ''transaction''"
    "u ''REMARK'' \<noteq> u ''transaction''" "u ''REMARK'' \<noteq> u ''REMARK_CLEAN''"
    by (simp_all add: u_def)
  have classified: "columns (DataFrame example_classified) = [u ''transaction'', u ''category'']"
    using neq by (simp add: DataFrame_def example_classified_def unique_def)
  have fallback: "columns (set_column (u ''category'') (replicate 2 (Text fallback_category))
                (iloc_from 3 example_transactions))
     = [u ''REMARK_CLEAN'', u ''REMARK'', u ''category'']"
    using neq by (simp add: set_column_def iloc_from_def example_columns)
  have out: "columns (reconcile example_transactions example_classified)
     = [u ''transaction'', u ''category'', u ''REMARK_CLEAN'', u ''REMARK'']"
    using neq
    by (simp add: reconcile_missing example_lengths pd_concat_def classified fallback unique_def)
  have row: "cell_at (reconcile example_transactions example_classified) 3 k
             = (if k = u ''category'' then Text fallback_category else cell_at example_transactions 3 k)"
    for k
    by (rule reconcile_tail_cell) (simp_all add: example_lengths)
  have cells: "cell_at example_transactions 3 (u ''transaction'') = NaN"
    "cell_at example_transactions 3 (u ''REMARK_CLEAN'') = Text (u ''t4'')"
    using neq by (simp_all add: example_transactions_def cell_at_def loc_def)
  show ?thesis
    using neq by (simp add: out classified fallback row cells)
qed

section \<open>Properties of the run\<close>

lemma apply_expand_length:
  "apply_expand model m xs sent = (Inr ys, sent') \<Longrightarrow> length ys = length xs"
proof (induction xs arbitrary: ys sent)
  case Nil
  then show ?case by simp
next
  case (Cons x xs)
  then show ?case
    by (auto split: prod.splits sum.splits)
qed

lemma REMARK_neq: "u ''REMARK_CLEAN'' \<noteq> u ''REMARK''"
  by (simp add: u_def)

lemma expand_remarks_Inr:
  assumes "expand_remarks model m df sent = (Inr df', sent')"
  shows "\<exists>remark_clean remark.
           get_column df (u ''REMARK_CLEAN'') = Inr remark_clean
         \<and> apply_expand model m remark_clean sent = (Inr remark, sent')
         \<and> get_column df' (u ''REMARK'') = Inr remark
         \<and> get_column df' (u ''REMARK_CLEAN'') = Inr remark_clean"
proof -
  from assms obtain remark_clean where
    raw: "get_column df (u ''REMARK_CLEAN'') = Inr remark_clean"
    by (cases "get_column df (u ''REMARK_CLEAN'')") (auto simp: expand_remarks_def)
  obtain r s where run: "apply_expand model m remark_clean sent = (r, s)"
    by (cases "apply_expand model m remark_clean sent")
  with assms raw obtain remark where
    r: "r = Inr remark" and s: "s = sent'" and df': "df' = set_column (u ''REMARK'') remark df"
    by (cases r) (auto simp: expand_remarks_def)
  have len: "length remark = length (rows df)"
    using run raw unfolding r by (simp add: apply_expand_length get_column_length)
  have "get_column df' (u ''REMARK'') = Inr remark"
    unfolding df' using len by (rule get_column_set_column_same)
  moreover have "get_column df' (u ''REMARK_CLEAN'') = Inr remark_clean"
    unfolding df' using len REMARK_neq raw by (simp add: get_column_set_column_other)
  ultimately show ?thesis
    using raw run r s by blast
qed

lemma py_str_astype: "py_str (astype_str keeps_missing x) = py_str x"
  by (cases x) (simp_all add: astype_str_def)

lemma join_astype:
  assumes "join_cells sep (map (astype_str keeps_missing) xs) = Inr t"
  shows "t = str_join sep (map py_str xs)"
proof -
  have same: "map py_str (map (astype_str keeps_missing) xs) = map py_str xs"
    by (simp add: py_str_astype)
  from assms have "t = str_join sep (map py_str (map (astype_str keeps_missing) xs))"
    by (simp split: if_splits del: map_map)
  then show ?thesis
    unfolding same .
qed

lemma build_prompt_Inr:
  assumes "build_prompt keeps_missing category_list df = Inr p"
    and "get_column df (u ''REMARK_CLEAN'') = Inr remark_clean"
  shows "p = classification_prompt (str_join (u '', '') (map py_str category_list))
               (str_join (u ''\<newline>'') (map py_str remark_clean))"
proof -
  from assms obtain t where
    t: "join_cells (u ''\<newline>'') (map (astype_str keeps_missing) remark_clean) = Inr t"
    by (cases "join_cells (u ''\<newline>'') (map (astype_str keeps_missing) remark_clean)")
       (simp_all add: build_prompt_def)
  from assms t obtain c where c: "join_cells (u '', '') category_list = Inr c"
    by (cases "join_cells (u '', '') category_list") (simp_all add: build_prompt_def)
  from c have "c = str_join (u '', '') (map py_str category_list)"
    by (simp split: if_splits)
  moreover from t have "t = str_join (u ''\<newline>'') (map py_str remark_clean)"
    by (rule join_astype)
  moreover from assms t c have "p = classification_prompt c t"
    by (simp add: build_prompt_def)
  ultimately show ?thesis
    by simp
qed

lemma classification_prompt_inject:
  "classification_prompt c t = classification_prompt c t' \<longleftrightarrow> t = t'"
  by (simp add: classification_prompt_def)

lemma main_Inr:
  assumes "main keeps_missing model json_loads categories_df transactions_df abbreviation_dict
             sent = (Inr r, sent')"
  shows "\<exists>category_list remark_clean remark sent1.
           first_column categories_df = Inr category_list
         \<and> get_column transactions_df (u ''REMARK_CLEAN'') = Inr remark_clean
         \<and> apply_expand model (load_abbreviation_dict abbreviation_dict) remark_clean sent
             = (Inr remark, sent1)
         \<and> get_column (run_transactions r) (u ''REMARK'') = Inr remark
         \<and> get_column (run_transactions r) (u ''REMARK_CLEAN'') = Inr remark_clean
         \<and> run_prompt r
             = classification_prompt (str_join (u '', '') (map py_str category_list))
                 (str_join (u ''\<newline>'') (map py_str remark_clean))
         \<and> sent' = sent1 @ [run_prompt r]"
proof -
  let ?m = "load_abbreviation_dict abbreviation_dict"
  from assms obtain category_list where
    cats: "first_column categories_df = Inr category_list"
    by (cases "first_column categories_df") (auto simp: main_def)
  obtain e s where exp: "expand_remarks model ?m transactions_df sent = (e, s)"
    by (cases "expand_remarks model ?m transactions_df sent")
  with assms cats obtain df' where e: "e = Inr df'"
    by (cases e) (auto simp: main_def)
  from expand_remarks_Inr [OF exp [unfolded e]] obtain remark_clean remark where
    raw: "get_column transactions_df (u ''REMARK_CLEAN'') = Inr remark_clean"
    and run: "apply_expand model ?m remark_clean sent = (Inr remark, s)"
    and new: "get_column df' (u ''REMARK'') = Inr remark"
    and old: "get_column df' (u ''REMARK_CLEAN'') = Inr remark_clean"
    by blast
  from assms cats exp e obtain p where p: "build_prompt keeps_missing category_list df' = Inr p"
    by (cases "build_prompt keeps_missing category_list df'") (auto simp: main_def)
  from p old have prompt:
    "p = classification_prompt (str_join (u '', '') (map py_str category_list))
           (str_join (u ''\<newline>'') (map py_str remark_clean))"
    by (rule build_prompt_Inr)
  from assms cats exp e p have "run_transactions r = df'" "run_prompt r = p" "sent' = s @ [p]"
    by (auto simp: main_def ollama_chat_def)
  with cats raw run new old prompt show ?thesis
    by (intro exI [of _ category_list] exI [of _ remark_clean] exI [of _ remark] exI [of _ s])
       simp
qed

lemma main_prompt_unique:
  assumes "main keeps_missing model json_loads categories_df transactions_df abbreviation_dict
             sent = (Inr r, sent')"
    and "main keeps_missing2 model2 json_loads2 categories_df transactions_df abbreviation_dict2
             sent2 = (Inr r2, sent2')"
  shows "run_prompt r2 = run_prompt r"
proof -
  from main_Inr [OF assms(1)] obtain category_list remark_clean where
    "first_column categories_df = Inr category_list"
    "get_column transactions_df (u ''REMARK_CLEAN'') = Inr remark_clean"
    "run_prompt r = classification_prompt (str_join (u '', '') (map py_str category_list))
                 (str_join (u ''\<newline>'') (map py_str remark_clean))"
    by blast
  moreover from main_Inr [OF assms(2)] obtain category_list2 remark_clean2 where
    "first_column categories_df = Inr category_list2"
    "get_column transactions_df (u ''REMARK_CLEAN'') = Inr remark_clean2"
    "run_prompt r2 = classification_prompt (str_join (u '', '') (map py_str category_list2))
                 (str_join (u ''\<newline>'') (map py_str remark_clean2))"
    by blast
  ultimately show ?thesis
    by simp
qed

text \<open>
  C7. When the run reaches the classifier, the expanded remarks are stored in the
  column \<^verbatim>\<open>REMARK\<close> of the table of transactions and the column \<^verbatim>\<open>REMARK_CLEAN\<close> is as
  it was read. The prompt, the last one sent, is the text of the f-string with the
  categories in its first hole and, in its second, the cells of \<^verbatim>\<open>REMARK_CLEAN\<close> joined
  by newlines. It is not the prompt with the expanded remarks in that hole whenever
  these differ from the raw ones, and it is the same prompt for every model, dictionary
  and library version with which the run reaches the classifier on these tables.
\<close>

theorem prompt_from_raw_remarks:
  assumes "main keeps_missing model json_loads categories_df transactions_df abbreviation_dict
             sent = (Inr r, sent')"
  shows "\<exists>category_list remark_clean remark sent1.
           first_column categories_df = Inr category_list
         \<and> get_column transactions_df (u ''REMARK_CLEAN'') = Inr remark_clean
         \<and> apply_expand model (load_abbreviation_dict abbreviation_dict) remark_clean sent
             = (Inr remark, sent1)
         \<and> get_column (run_transactions r) (u ''REMARK'') = Inr remark
         \<and> get_column (run_transactions r) (u ''REMARK_CLEAN'') = Inr remark_clean
         \<and> run_prompt r
             = classification_head @ str_join (u '', '') (map py_str category_list)
               @ classification_middle @ str_join (u ''\<newline>'') (map py_str remark_clean)
               @ classification_tail
         \<and> sent' = sent1 @ [run_prompt r]
         \<and> (str_join (u ''\<newline>'') (map py_str remark)
               \<noteq> str_join (u ''\<newline>'') (map py_str remark_clean)
             \<longrightarrow> run_prompt r
                   \<noteq> classification_head @ str_join (u '', '') (map py_str category_list)
                     @ classification_middle @ str_join (u ''\<newline>'') (map py_str remark)
                     @ classification_tail)
         \<and> (\<forall>keeps_missing2 model2 json_loads2 abbreviation_dict2 sent2 r2 sent2'.
               main keeps_missing2 model2 json_loads2 categories_df transactions_df
                 abbreviation_dict2 sent2 = (Inr r2, sent2')
               \<longrightarrow> run_prompt r2 = run_prompt r)"
proof -
  from main_Inr [OF assms] obtain category_list remark_clean remark sent1 where
    cats: "first_column categories_df = Inr category_list"
    and raw: "get_column transactions_df (u ''REMARK_CLEAN'') = Inr remark_clean"
    and run: "apply_expand model (load_abbreviation_dict abbreviation_dict) remark_clean sent
             = (Inr remark, sent1)"
    and new: "get_column (run_transactions r) (u ''REMARK'') = Inr remark"
    and old: "get_column (run_transactions r) (u ''REMARK_CLEAN'') = Inr remark_clean"
    and prompt: "run_prompt r
             = classification_prompt (str_join (u '', '') (map py_str category_list))
                 (str_join (u ''\<newline>'') (map py_str remark_clean))"
    and sent: "sent' = sent1 @ [run_prompt r]"
    by blast
  have form: "run_prompt r
             = classification_head @ str_join (u '', '') (map py_str category_list)
               @ classification_middle @ str_join (u ''\<newline>'') (map py_str remark_clean)
               @ classification_tail"
    by (simp add: prompt classification_prompt_def)
  have differs: "run_prompt r
                   \<noteq> classification_head @ str_join (u '', '') (map py_str category_list)
                     @ classification_middle @ str_join (u ''\<newline>'') (map py_str remark)
                     @ classification_tail"
    if "str_join (u ''\<newline>'') (map py_str remark)
        \<noteq> str_join (u ''\<newline>'') (map py_str remark_clean)"
    using that by (simp add: form)
  have same: "run_prompt r2 = run_prompt r"
    if "main keeps_missing2 model2 json_loads2 categories_df transactions_df
          abbreviation_dict2 sent2 = (Inr r2, sent2')"
    for keeps_missing2 model2 json_loads2 abbreviation_dict2 sent2 r2 sent2'
    using assms that by (rule main_prompt_unique)
  show ?thesis
    apply (rule exI [of _ category_list], rule exI [of _ remark_clean])
    apply (rule exI [of _ remark], rule exI [of _ sent1])
    using cats raw run new old form sent differs same
    apply (intro conjI allI impI)
    apply blast+
    done
qed

lemma example_run_Payment:
  "expand_abbreviations (echo_model (u ''Payment'')) (u ''TXN for PMT'')
     (load_abbreviation_dict
        [(u ''Transaction'', u ''TXN''), (u ''Payment'', u ''PMT''), (u ''Permit'', u ''PMT'')]) []
   = (Inr (u ''Transaction for Payment''),
      [resolver_prompt (u ''PMT'') (u ''TXN for PMT'') [u ''Payment'', u ''Permit'']])"
proof -
  have strip: "str_strip (u ''Payment'') = u ''Payment''"
    by (simp add: str_strip_def u_def isspace_def)
  have keys: "u ''for'' \<noteq> u ''TXN''" "u ''for'' \<noteq> u ''PMT''" "u ''PMT'' \<noteq> u ''TXN''"
    by (simp_all add: u_def)
  show ?thesis
    by (simp add: expand_abbreviations_def split_TXN_for_PMT example_dict_lookup keys
        resolve_nonempty echo_model_def strip)
       (simp add: u_def)
qed

lemma example_build_prompt:
  "build_prompt keeps_missing [Text (u ''Food'')]
      \<lparr>columns = [u ''REMARK_CLEAN'', u ''REMARK''],
       rows = [[Text (u ''TXN for PMT''), Text remark]]\<rparr>
    = Inr (classification_prompt (u ''Food'') (u ''TXN for PMT''))"
  by (simp add: build_prompt_def get_column_def loc_def astype_str_def)

lemma example_main:
  "main False (echo_model (u ''Permit'')) Map.empty
     \<lparr>columns = [u ''Category''], rows = [[Text (u ''Food'')]]\<rparr>
     \<lparr>columns = [u ''REMARK_CLEAN''], rows = [[Text (u ''TXN for PMT'')]]\<rparr>
     [(u ''Transaction'', u ''TXN''), (u ''Payment'', u ''PMT''), (u ''Permit'', u ''PMT'')] []
   = (Inr \<lparr>run_transactions =
              \<lparr>columns = [u ''REMARK_CLEAN'', u ''REMARK''],
               rows = [[Text (u ''TXN for PMT''), Text (u ''Transaction for Permit'')]]\<rparr>,
            run_prompt = classification_prompt (u ''Food'') (u ''TXN for PMT''),
            run_outcome = JSONDecodeError\<rparr>,
      [resolver_prompt (u ''PMT'') (u ''TXN for PMT'') [u ''Payment'', u ''Permit''],
       classification_prompt (u ''Food'') (u ''TXN for PMT'')])"
proof -
  have neq: "u ''REMARK'' \<noteq> u ''REMARK_CLEAN''"
    using REMARK_neq by simp
  have expand: "expand_remarks (echo_model (u ''Permit''))
      (load_abbreviation_dict
         [(u ''Transaction'', u ''TXN''), (u ''Payment'', u ''PMT''), (u ''Permit'', u ''PMT'')])
      \<lparr>columns = [u ''REMARK_CLEAN''], rows = [[Text (u ''TXN for PMT'')]]\<rparr> []
    = (Inr \<lparr>columns = [u ''REMARK_CLEAN'', u ''REMARK''],
            rows = [[Text (u ''TXN for PMT''), Text (u ''Transaction for Permit'')]]\<rparr>,
       [resolver_prompt (u ''PMT'') (u ''TXN for PMT'') [u ''Payment'', u ''Permit'']])"
    using neq
    by (simp add: expand_remarks_def get_column_def loc_def example_run set_column_def)
  show ?thesis
    by (simp add: main_def first_column_def loc_def expand example_build_prompt ollama_chat_def
        echo_model_def)
qed

lemma example_main_Payment:
  "main True (echo_model (u ''Payment'')) Map.empty
     \<lparr>columns = [u ''Category''], rows = [[Text (u ''Food'')]]\<rparr>
     \<lparr>columns = [u ''REMARK_CLEAN''], rows = [[Text (u ''TXN for PMT'')]]\<rparr>
     [(u ''Transaction'', u ''TXN''), (u ''Payment'', u ''PMT''), (u ''Permit'', u ''PMT'')] []
   = (Inr \<lparr>run_transactions =
              \<lparr>columns = [u ''REMARK_CLEAN'', u ''REMARK''],
               rows = [[Text (u ''TXN for PMT''), Text (u ''Transaction for Payment'')]]\<rparr>,
            run_prompt = classification_prompt (u ''Food'') (u ''TXN for PMT''),
            run_outcome = JSONDecodeError\<rparr>,
      [resolver_prompt (u ''PMT'') (u ''TXN for PMT'') [u ''Payment'', u ''Permit''],
       classification_prompt (u ''Food'') (u ''TXN for PMT'')])"
proof -
  have neq: "u ''REMARK'' \<noteq> u ''REMARK_CLEAN''"
    using REMARK_neq by simp
  have expand: "expand_remarks (echo_model (u ''Payment''))
      (load_abbreviation_dict
         [(u ''Transaction'', u ''TXN''), (u ''Payment'', u ''PMT''), (u ''Permit'', u ''PMT'')])
      \<lparr>columns = [u ''REMARK_CLEAN''], rows = [[Text (u ''TXN for PMT'')]]\<rparr> []
    = (Inr \<lparr>columns = [u ''REMARK_CLEAN'', u ''REMARK''],
            rows = [[Text (u ''TXN for PMT''), Text (u ''Transaction for Payment'')]]\<rparr>,
       [resolver_prompt (u ''PMT'') (u ''TXN for PMT'') [u ''Payment'', u ''Permit'']])"
    using neq
    by (simp add: expand_remarks_def get_column_def loc_def example_run_Payment set_column_def)
  show ?thesis
    by (simp add: main_def first_column_def loc_def expand example_build_prompt ollama_chat_def
        echo_model_def)
qed

theorem prompt_from_raw_remarks_witness:
  "main False (echo_model (u ''Permit'')) Map.empty
     \<lparr>columns = [u ''Category''], rows = [[Text (u ''Food'')]]\<rparr>
     \<lparr>columns = [u ''REMARK_CLEAN''], rows = [[Text (u ''TXN for PMT'')]]\<rparr>
     [(u ''Transaction'', u ''TXN''), (u ''Payment'', u ''PMT''), (u ''Permit'', u ''PMT'')] []
   = (Inr \<lparr>run_transactions =
              \<lparr>columns = [u ''REMARK_CLEAN'', u ''REMARK''],
               rows = [[Text (u ''TXN for PMT''), Text (u ''Transaction for Permit'')]]\<rparr>,
            run_prompt = classification_prompt (u ''Food'') (u ''TXN for PMT''),
            run_outcome = JSONDecodeError\<rparr>,
      [resolver_prompt (u ''PMT'') (u ''TXN for PMT'') [u ''Payment'', u ''Permit''],
       classification_prompt (u ''Food'') (u ''TXN for PMT'')])
   \<and> classification_prompt (u ''Food'') (u ''TXN for PMT'')
     = classification_head @ u ''Food'' @ classification_middle @ u ''TXN for PMT''
       @ classification_tail
   \<and> u ''Transaction for Permit'' \<noteq> u ''TXN for PMT''
   \<and> classification_prompt (u ''Food'') (u ''TXN for PMT'')
     \<noteq> classification_head @ u ''Food'' @ classification_middle @ u ''Transaction for Permit''
       @ classification_tail
   \<and> main True (echo_model (u ''Payment'')) Map.empty
       \<lparr>columns = [u ''Category''], rows = [[Text (u ''Food'')]]\<rparr>
       \<lparr>columns = [u ''REMARK_CLEAN''], rows = [[Text (u ''TXN for PMT'')]]\<rparr>
       [(u ''Transaction'', u ''TXN''), (u ''Payment'', u ''PMT''), (u ''Permit'', u ''PMT'')] []
     = (Inr \<lparr>run_transactions =
                \<lparr>columns = [u ''REMARK_CLEAN'', u ''REMARK''],
                 rows = [[Text (u ''TXN for PMT''), Text (u ''Transaction for Payment'')]]\<rparr>,
              run_prompt = classification_prompt (u ''Food'') (u ''TXN for PMT''),
              run_outcome = JSONDecodeError\<rparr>,
        [resolver_prompt (u ''PMT'') (u ''TXN for PMT'') [u ''Payment'', u ''Permit''],
         classification_prompt (u ''Food'') (u ''TXN for PMT'')])"
proof -
  let ?cdf = "\<lparr>columns = [u ''Category''], rows = [[Text (u ''Food'')]]\<rparr>"
  let ?tdf = "\<lparr>columns = [u ''REMARK_CLEAN''], rows = [[Text (u ''TXN for PMT'')]]\<rparr>"
  let ?out = "\<lparr>columns = [u ''REMARK_CLEAN'', u ''REMARK''],
               rows = [[Text (u ''TXN for PMT''), Text (u ''Transaction for Permit'')]]\<rparr>"
  have cats: "first_column ?cdf = Inr [Text (u ''Food'')]"
    by (simp add: first_column_def loc_def)
  have raw: "get_column ?tdf (u ''REMARK_CLEAN'') = Inr [Text (u ''TXN for PMT'')]"
    by (simp add: get_column_def loc_def)
  have new: "get_column ?out (u ''REMARK'') = Inr [Text (u ''Transaction for Permit'')]"
    using REMARK_neq by (simp add: get_column_def loc_def)
  have differ: "u ''Transaction for Permit'' \<noteq> u ''TXN for PMT''"
    by (simp add: u_def)
  from prompt_from_raw_remarks [OF example_main] obtain category_list remark_clean remark where
    "first_column ?cdf = Inr category_list"
    "get_column ?tdf (u ''REMARK_CLEAN'') = Inr remark_clean"
    "get_column ?out (u ''REMARK'') = Inr remark"
    and form: "classification_prompt (u ''Food'') (u ''TXN for PMT'')
             = classification_head @ str_join (u '', '') (map py_str category_list)
               @ classification_middle @ str_join (u ''\<newline>'') (map py_str remark_clean)
               @ classification_tail"
    and differs: "str_join (u ''\<newline>'') (map py_str remark)
               \<noteq> str_join (u ''\<newline>'') (map py_str remark_clean)
             \<longrightarrow> classification_prompt (u ''Food'') (u ''TXN for PMT'')
                   \<noteq> classification_head @ str_join (u '', '') (map py_str category_list)
                     @ classification_middle @ str_join (u ''\<newline>'') (map py_str remark)
                     @ classification_tail"
    by auto
  with cats raw new have vals: "category_list = [Text (u ''Food'')]"
    "remark_clean = [Text (u ''TXN for PMT'')]" "remark = [Text (u ''Transaction for Permit'')]"
    by simp_all
  from form have contains: "classification_prompt (u ''Food'') (u ''TXN for PMT'')
     = classification_head @ u ''Food'' @ classification_middle @ u ''TXN for PMT''
       @ classification_tail"
    by (simp add: vals)
  from differs differ have other: "classification_prompt (u ''Food'') (u ''TXN for PMT'')
     \<noteq> classification_head @ u ''Food'' @ classification_middle @ u ''Transaction for Permit''
       @ classification_tail"
    unfolding vals by simp
  from example_main contains differ other example_main_Payment show ?thesis
    by (intro conjI)
qed

end
